theory Spec2Isabelle
  imports Main "HOL-Library.Multiset" "HOL-Library.Product_Lexorder"
begin

section \<open>Python values and failures\<close>

text \<open>
  The exceptions of \<^verbatim>\<open>tar_data_collection.py\<close> that the modelled functions
  can raise. A function that can raise returns \<open>py_error + 'a\<close>, with \<open>Inl\<close> for the
  exception.
\<close>

datatype py_error =
    IndexError | KeyError | TypeError | ValueError | AssertionError | UnicodeEncodeError
  | IOError

text \<open>
  The script runs under Python 2 (it calls \<^verbatim>\<open>decode\<close> on string literals and passes
  an encoded string to \<^verbatim>\<open>strptime\<close>), where text read from XML and through
  \<^verbatim>\<open>codecs.open\<close> is \<^verbatim>\<open>unicode\<close> and the fields of a CSV row are byte
  strings. A character stands for one code point below 256. \<open>isspace\<close> is the
  whitespace that \<^verbatim>\<open>unicode.strip()\<close> removes in that range, \<open>str_isspace\<close> the
  whitespace that \<^verbatim>\<open>str.strip()\<close> removes, \<open>isdigit\<close> the class \<^verbatim>\<open>\d\<close> of a
  pattern compiled without the UNICODE flag, and \<open>isascii\<close> holds of the characters
  that the ASCII codec encodes.
\<close>

definition isspace :: "char \<Rightarrow> bool" where
  "isspace c = ((of_char c :: nat) \<in> {9, 10, 11, 12, 13, 28, 29, 30, 31, 32, 133, 160})"

definition str_isspace :: "char \<Rightarrow> bool" where
  "str_isspace c = ((of_char c :: nat) \<in> {9, 10, 11, 12, 13, 32})"

definition isascii :: "char \<Rightarrow> bool" where
  "isascii c = ((of_char c :: nat) < 128)"

definition isdigit :: "char \<Rightarrow> bool" where
  "isdigit c = (48 \<le> (of_char c :: nat) \<and> (of_char c :: nat) \<le> 57)"

definition strip_with :: "(char \<Rightarrow> bool) \<Rightarrow> string \<Rightarrow> string" where
  "strip_with space s = rev (dropWhile space (rev (dropWhile space s)))"

definition strip :: "string \<Rightarrow> string" where
  "strip s = strip_with isspace s"

definition str_strip :: "string \<Rightarrow> string" where
  "str_strip s = strip_with str_isspace s"

definition startswith :: "string \<Rightarrow> char \<Rightarrow> bool" where
  "startswith s c = (case s of [] \<Rightarrow> False | d # _ \<Rightarrow> d = c)"

text \<open>\<^verbatim>\<open>sep.join(parts)\<close>.\<close>

fun join :: "string \<Rightarrow> string list \<Rightarrow> string" where
  "join sep [] = []"
| "join sep [p] = p"
| "join sep (p # q # ps) = p @ sep @ join sep (q # ps)"

text \<open>\<^verbatim>\<open>int(s)\<close> on a string of decimal digits.\<close>

definition int_of_digits :: "string \<Rightarrow> nat" where
  "int_of_digits ds = foldl (\<lambda>a c. 10 * a + ((of_char c :: nat) - 48)) 0 ds"

text \<open>
  \<^verbatim>\<open>re.findall(r'\d+', s)\<close>: the maximal runs of digits, left to right.
  The first argument is the run being read.
\<close>

fun digit_runs :: "string \<Rightarrow> string \<Rightarrow> string list" where
  "digit_runs cur [] = (if cur = [] then [] else [cur])"
| "digit_runs cur (c # cs) =
     (if isdigit c then digit_runs (cur @ [c]) cs
      else (if cur = [] then [] else [cur]) @ digit_runs [] cs)"

definition findall_digits :: "string \<Rightarrow> string list" where
  "findall_digits s = digit_runs [] s"

text \<open>
  \<^verbatim>\<open>re.findall(r'CD\d+', s)[0]\<close>: the leftmost match, \<open>None\<close> where the list
  of matches is empty and the subscript raises IndexError.
\<close>

fun search_CD :: "string \<Rightarrow> string option" where
  "search_CD (c # d # e # cs) =
     (if c = CHR ''C'' \<and> d = CHR ''D'' \<and> isdigit e
      then Some (c # d # takeWhile isdigit (e # cs))
      else search_CD (d # e # cs))"
| "search_CD _ = None"

section \<open>Chunking\<close>

text \<open>
  \<^verbatim>\<open>range(0, stop, step)\<close> for a positive step: the multiples of \<open>step\<close> below
  \<open>stop\<close>.
\<close>

definition range_step :: "nat \<Rightarrow> nat \<Rightarrow> nat list" where
  "range_step stop step = map (\<lambda>k. k * step) [0..<(stop + step - 1) div step]"

text \<open>\<^verbatim>\<open>arr[i:j]\<close> for \<open>0 \<le> i \<le> j\<close>; a slice never raises.\<close>

definition slice :: "'a list \<Rightarrow> nat \<Rightarrow> nat \<Rightarrow> 'a list" where
  "slice arr i j = take (j - i) (drop i arr)"

text \<open>
  \<^verbatim>\<open>return [arr[i:i+n] for i in range(0, len(arr), n)]\<close>.
  \<^verbatim>\<open>range\<close> raises ValueError for a zero step and is empty for a negative one.
\<close>

definition chunks_by_element :: "'a list \<Rightarrow> int \<Rightarrow> py_error + 'a list list" where
  "chunks_by_element arr n =
     (if n = 0 then Inl ValueError
      else if n < 0 then Inr []
      else Inr (map (\<lambda>i. slice arr i (i + nat n)) (range_step (length arr) (nat n))))"

section \<open>Parsed XML\<close>

text \<open>
  A tree of \<^verbatim>\<open>xml.dom.minidom\<close>: an element with its tag name, attributes and child
  nodes, a text node with its data, or a node of another type (comment, CDATA section,
  processing instruction). Parsing the bytes of a file is the library's work; the model
  starts from the document element.
\<close>

datatype node = Element string "(string \<times> string) list" "node list" | Text string | Other

fun childNodes :: "node \<Rightarrow> node list" where
  "childNodes (Element t as cs) = cs"
| "childNodes (Text s) = []"
| "childNodes Other = []"

text \<open>\<^verbatim>\<open>getAttribute\<close> returns the empty string for a missing attribute.\<close>

fun getAttribute :: "node \<Rightarrow> string \<Rightarrow> string" where
  "getAttribute (Element t as cs) a = (case map_of as a of None \<Rightarrow> [] | Some v \<Rightarrow> v)"
| "getAttribute (Text s) a = []"
| "getAttribute Other a = []"

fun is_tag :: "string \<Rightarrow> node \<Rightarrow> bool" where
  "is_tag name (Element t as cs) = (t = name)"
| "is_tag name (Text s) = False"
| "is_tag name Other = False"

text \<open>All nodes below a node, in document order.\<close>

fun descendants :: "node \<Rightarrow> node list" where
  "descendants (Element t as cs) = concat (map (\<lambda>c. c # descendants c) cs)"
| "descendants (Text s) = []"
| "descendants Other = []"

definition getElementsByTagName :: "node \<Rightarrow> string \<Rightarrow> node list" where
  "getElementsByTagName root name = filter (is_tag name) (descendants root)"

text \<open>The data of the text nodes among the child nodes of a node.\<close>

fun text_data :: "node list \<Rightarrow> string list" where
  "text_data [] = []"
| "text_data (Text s # ns) = s # text_data ns"
| "text_data (n # ns) = text_data ns"

text \<open>
  \<^verbatim>\<open>get_tag_text(root, tagname)\<close>: the subscript \<^verbatim>\<open>[0]\<close> raises IndexError
  when no element has the tag; otherwise the text children of the first one are
  concatenated.
\<close>

definition get_tag_text :: "node \<Rightarrow> string \<Rightarrow> py_error + string" where
  "get_tag_text root tagname =
     (case getElementsByTagName root tagname of
        [] \<Rightarrow> Inl IndexError
      | n # _ \<Rightarrow> Inr (concat (text_data (childNodes n))))"

section \<open>Topics and directories\<close>

text \<open>
  One entry of the dictionary that \<^verbatim>\<open>read_ovid_search_file\<close> returns. The
  spreadsheet reader sets all four keys of every topic it loads, so a topic is either
  absent or complete.
\<close>

record review =
  review_doi :: string
  url :: string
  query :: string
  date :: string

type_synonym dict_review = "string \<rightharpoonup> review"

text \<open>
  \<^verbatim>\<open>get_file_ids\<close>: the file names that \<^verbatim>\<open>os.walk\<close> lists, without those that
  start with a dot. The model takes the listed names; a second argument of a stage gives
  the content behind each name.
\<close>

definition get_file_ids :: "string list \<Rightarrow> string list" where
  "get_file_ids files = filter (\<lambda>f. \<not> startswith f (CHR ''.'')) files"

section \<open>PID Extractor\<close>

text \<open>
  A \<^verbatim>\<open>datetime\<close> made by \<^verbatim>\<open>strptime(s, "%Y%m%d")\<close> is a year, a month and a day
  (the time of day is zero); two of them compare as these triples do, lexicographically.
  \<^verbatim>\<open>strptime\<close> itself belongs to the standard library: the Extractor takes it as the
  parameter \<open>sp\<close>, which returns ValueError on a string it rejects.
\<close>

type_synonym datetime = "nat \<times> nat \<times> nat"

type_synonym strptime = "string \<Rightarrow> py_error + datetime"

text \<open>
  The date window of a topic, as the Extractor computes it for every file:
  \<^verbatim>\<open>dict_review[topic_id]['date']\<close> raises KeyError for a topic that is not loaded,
  unpacking \<^verbatim>\<open>re.findall(r'\d+', date_range)\<close> into two names raises ValueError unless
  there are exactly two runs of digits.
\<close>

definition date_window :: "strptime \<Rightarrow> dict_review \<Rightarrow> string \<Rightarrow> py_error + (datetime \<times> datetime)" where
  "date_window sp dr topic_id =
     (case dr topic_id of
        None \<Rightarrow> Inl KeyError
      | Some rv \<Rightarrow>
          (case findall_digits (date rv) of
             [s, e] \<Rightarrow>
               (case sp s of
                  Inl err \<Rightarrow> Inl err
                | Inr start_date \<Rightarrow>
                    (case sp e of
                       Inl err \<Rightarrow> Inl err
                     | Inr end_date \<Rightarrow> Inr (start_date, end_date)))
           | _ \<Rightarrow> Inl ValueError))"

text \<open>
  The loop over the \<^verbatim>\<open>F\<close> elements of a record. The state is \<^verbatim>\<open>ui\<close> and
  \<^verbatim>\<open>test_date\<close>; \<^verbatim>\<open>test_date\<close> is \<open>None\<close> while it still holds the empty
  string it was initialised with.
\<close>

fun scan_F :: "strptime \<Rightarrow> node list \<Rightarrow> string \<times> datetime option
    \<Rightarrow> py_error + (string \<times> datetime option)" where
  "scan_F sp [] st = Inr st"
| "scan_F sp (f # fs) (ui, test_date) =
     (case (if getAttribute f ''L'' = ''Unique Identifier''
            then (case get_tag_text f ''D'' of Inl err \<Rightarrow> Inl err | Inr t \<Rightarrow> Inr t)
            else Inr ui) of
        Inl err \<Rightarrow> Inl err
      | Inr ui' \<Rightarrow>
          (case (if getAttribute f ''L'' = ''Date Created''
                 then (case get_tag_text f ''D'' of
                         Inl err \<Rightarrow> Inl err
                       | Inr t \<Rightarrow> (case sp t of Inl err \<Rightarrow> Inl err | Inr d \<Rightarrow> Inr (Some d)))
                 else Inr test_date) of
             Inl err \<Rightarrow> Inl err
           | Inr test_date' \<Rightarrow> scan_F sp fs (ui', test_date')))"

text \<open>
  What the Extractor reads from one \<^verbatim>\<open>record\<close> element before it filters: the
  declared index (the first run of digits of the \<^verbatim>\<open>index\<close> attribute, IndexError
  when there is none), the identifier and the creation date.
\<close>

definition read_record :: "strptime \<Rightarrow> node \<Rightarrow> py_error + (nat \<times> string \<times> datetime option)" where
  "read_record sp r =
     (case findall_digits (getAttribute r ''index'') of
        [] \<Rightarrow> Inl IndexError
      | ds # _ \<Rightarrow>
          (case scan_F sp (getElementsByTagName r ''F'') ([], None) of
             Inl err \<Rightarrow> Inl err
           | Inr (ui, test_date) \<Rightarrow> Inr (int_of_digits ds, ui, test_date)))"

text \<open>
  \<^verbatim>\<open>if test_date < end_date and test_date > start_date\<close>. Comparing the empty string
  that \<^verbatim>\<open>test_date\<close> holds when the record has no creation date with a
  \<^verbatim>\<open>datetime\<close> raises TypeError.
\<close>

definition date_filter :: "datetime \<Rightarrow> datetime \<Rightarrow> datetime option \<Rightarrow> py_error + bool" where
  "date_filter start_date end_date test_date =
     (case test_date of
        None \<Rightarrow> Inl TypeError
      | Some d \<Rightarrow> Inr (d < end_date \<and> d > start_date))"

text \<open>The body of the loop over the records: \<^verbatim>\<open>list_ret\<close> is returned updated.\<close>

definition process_record :: "strptime \<Rightarrow> datetime \<Rightarrow> datetime \<Rightarrow> node \<Rightarrow> (nat \<times> string) list
    \<Rightarrow> py_error + (nat \<times> string) list" where
  "process_record sp start_date end_date r list_ret =
     (case read_record sp r of
        Inl err \<Rightarrow> Inl err
      | Inr (inx, ui, test_date) \<Rightarrow>
          (case date_filter start_date end_date test_date of
             Inl err \<Rightarrow> Inl err
           | Inr keep \<Rightarrow> Inr (if keep then list_ret @ [(inx, ui)] else list_ret)))"

fun process_records :: "strptime \<Rightarrow> datetime \<Rightarrow> datetime \<Rightarrow> node list \<Rightarrow> (nat \<times> string) list
    \<Rightarrow> py_error + (nat \<times> string) list" where
  "process_records sp start_date end_date [] list_ret = Inr list_ret"
| "process_records sp start_date end_date (r # rs) list_ret =
     (case process_record sp start_date end_date r list_ret of
        Inl err \<Rightarrow> Inl err
      | Inr list_ret' \<Rightarrow> process_records sp start_date end_date rs list_ret')"

text \<open>The body of the loop over the files of a topic; \<open>root\<close> is the document element.\<close>

definition process_file :: "strptime \<Rightarrow> dict_review \<Rightarrow> string \<Rightarrow> node \<Rightarrow> (nat \<times> string) list
    \<Rightarrow> py_error + (nat \<times> string) list" where
  "process_file sp dr topic_id root list_ret =
     (case date_window sp dr topic_id of
        Inl err \<Rightarrow> Inl err
      | Inr (start_date, end_date) \<Rightarrow>
          process_records sp start_date end_date (getElementsByTagName root ''record'') list_ret)"

fun process_files :: "strptime \<Rightarrow> dict_review \<Rightarrow> string \<Rightarrow> node list \<Rightarrow> (nat \<times> string) list
    \<Rightarrow> py_error + (nat \<times> string) list" where
  "process_files sp dr topic_id [] list_ret = Inr list_ret"
| "process_files sp dr topic_id (root # roots) list_ret =
     (case process_file sp dr topic_id root list_ret of
        Inl err \<Rightarrow> Inl err
      | Inr list_ret' \<Rightarrow> process_files sp dr topic_id roots list_ret')"

text \<open>
  \<^verbatim>\<open>list_ret\<close> of a topic before it is sorted: \<open>files\<close> are the names listed in the
  topic's download directory, \<open>dom_of\<close> gives the parsed document of each.
\<close>

definition collect_pid :: "strptime \<Rightarrow> dict_review \<Rightarrow> string \<Rightarrow> string list \<Rightarrow> (string \<Rightarrow> node)
    \<Rightarrow> py_error + (nat \<times> string) list" where
  "collect_pid sp dr topic_id files dom_of =
     process_files sp dr topic_id (map dom_of (get_file_ids files)) []"

text \<open>
  The loop that writes \<^verbatim>\<open>'{}\n'.format(ui)\<close> for every identifier. The format
  string is a byte string and the identifier is \<^verbatim>\<open>unicode\<close>, so formatting encodes
  the identifier with the ASCII codec and raises UnicodeEncodeError when it cannot.
  The result is the identifiers written, one per line.
\<close>

definition write_pids :: "string list \<Rightarrow> py_error + string list" where
  "write_pids uis = (if list_all (list_all isascii) uis then Inr uis else Inl UnicodeEncodeError)"

text \<open>
  The body of \<^verbatim>\<open>extract_pid\<close> for one topic: the identifiers written to the
  topic's file after \<^verbatim>\<open>list_ret.sort(key=itemgetter(0))\<close>. Python's sort is stable,
  and so is \<open>sort_key\<close>.
\<close>

definition extract_pid_topic :: "strptime \<Rightarrow> dict_review \<Rightarrow> string \<Rightarrow> string list
    \<Rightarrow> (string \<Rightarrow> node) \<Rightarrow> py_error + string list" where
  "extract_pid_topic sp dr topic_id files dom_of =
     (case collect_pid sp dr topic_id files dom_of of
        Inl err \<Rightarrow> Inl err
      | Inr list_ret \<Rightarrow> write_pids (map snd (sort_key fst list_ret)))"

text \<open>
  \<^verbatim>\<open>extract_pid\<close>: the loop over the topic directories. \<open>files_of\<close> lists the
  files of a topic directory and \<open>dom_of\<close> gives the parsed document of a file of a
  topic. The result is the identifier-list files written, newest last, as pairs of file
  name and lines.
\<close>

fun extract_pid :: "strptime \<Rightarrow> dict_review \<Rightarrow> string list \<Rightarrow> (string \<Rightarrow> string list)
    \<Rightarrow> (string \<Rightarrow> string \<Rightarrow> node) \<Rightarrow> (string \<times> string list) list
    \<Rightarrow> py_error + (string \<times> string list) list" where
  "extract_pid sp dr [] files_of dom_of written = Inr written"
| "extract_pid sp dr (topic_id # dirs) files_of dom_of written =
     (case extract_pid_topic sp dr topic_id (files_of topic_id) (dom_of topic_id) of
        Inl err \<Rightarrow> Inl err
      | Inr pids \<Rightarrow> extract_pid sp dr dirs files_of dom_of (written @ [(topic_id, pids)]))"

section \<open>Curated relevance table\<close>

text \<open>One row of \<^verbatim>\<open>relevance_index.csv\<close> as \<^verbatim>\<open>csv.DictReader\<close> yields it.\<close>

record csv_row =
  row_review_doi :: string
  row_pubmed_id :: string
  row_ref_type :: string

text \<open>
  \<^verbatim>\<open>defaultdict(dict)\<close>: every review has a dictionary, empty until a row is stored.
\<close>

type_synonym dict_rel = "string \<Rightarrow> string \<rightharpoonup> int"

text \<open>\<^verbatim>\<open>dict_rel[review_doi][pubmed_id] = ref_type\<close>.\<close>

definition set_rel :: "dict_rel \<Rightarrow> string \<Rightarrow> string \<Rightarrow> int \<Rightarrow> dict_rel" where
  "set_rel dict_rel doi pid ref_type = dict_rel(doi := (dict_rel doi)(pid \<mapsto> ref_type))"

text \<open>
  The loop of \<^verbatim>\<open>read_clef_rel\<close> over the rows. The review id is computed before
  the judgment kind is looked at, so its IndexError comes first; \<^verbatim>\<open>continue\<close> goes
  on with the table unchanged, \<^verbatim>\<open>break\<close> returns it.
\<close>

fun read_clef_rows :: "string \<Rightarrow> csv_row list \<Rightarrow> dict_rel \<Rightarrow> py_error + dict_rel" where
  "read_clef_rows qrel_type [] dict_rel = Inr dict_rel"
| "read_clef_rows qrel_type (row # rows) dict_rel =
     (case search_CD (row_review_doi row) of
        None \<Rightarrow> Inl IndexError
      | Some m \<Rightarrow>
          (if qrel_type = ''abs'' then
             (if row_ref_type row = ''included''
              then read_clef_rows qrel_type rows
                     (set_rel dict_rel (str_strip m) (str_strip (row_pubmed_id row)) 1)
              else if row_ref_type row = ''excluded''
              then read_clef_rows qrel_type rows
                     (set_rel dict_rel (str_strip m) (str_strip (row_pubmed_id row)) 1)
              else read_clef_rows qrel_type rows dict_rel)
           else if qrel_type = ''doc'' then
             (if row_ref_type row = ''included''
              then read_clef_rows qrel_type rows
                     (set_rel dict_rel (str_strip m) (str_strip (row_pubmed_id row)) 1)
              else if row_ref_type row = ''excluded''
              then read_clef_rows qrel_type rows
                     (set_rel dict_rel (str_strip m) (str_strip (row_pubmed_id row)) 0)
              else read_clef_rows qrel_type rows dict_rel)
           else Inr dict_rel))"

definition empty_rel :: dict_rel where
  "empty_rel = (\<lambda>doi. Map.empty)"

definition read_clef_rel :: "string \<Rightarrow> csv_row list \<Rightarrow> py_error + dict_rel" where
  "read_clef_rel qrel_type rows = read_clef_rows qrel_type rows empty_rel"

text \<open>\<^verbatim>\<open>dict_rel[review_doi].get(item, 0)\<close>.\<close>

definition get_rel :: "dict_rel \<Rightarrow> string \<Rightarrow> string \<Rightarrow> int" where
  "get_rel dict_rel doi item = (case dict_rel doi item of None \<Rightarrow> 0 | Some ref_type \<Rightarrow> ref_type)"

section \<open>Release Builder\<close>

text \<open>
  Reading a topic's identifier list: \<open>ls\<close> are the lines that iterating over the file
  yields, \<^verbatim>\<open>list_boolean\<close> and \<^verbatim>\<open>local\<close> are the two lists of the loop.
\<close>

fun read_pids_loop :: "string list \<Rightarrow> string list \<Rightarrow> string list \<Rightarrow> string list" where
  "read_pids_loop [] list_boolean local = list_boolean"
| "read_pids_loop (l # ls) list_boolean local =
     (if strip l \<notin> set local
      then read_pids_loop ls (list_boolean @ [strip l]) (local @ [strip l])
      else read_pids_loop ls list_boolean local)"

definition read_pids :: "string list \<Rightarrow> string list" where
  "read_pids ls = read_pids_loop ls [] []"

text \<open>
  One line of a judgment file, written with the format
  \<^verbatim>\<open>'%-12s %-2d %-12s %-2s \n'\<close>: review id, iteration, document id, relevance flag.
\<close>

record qrel =
  TOPIC :: string
  ITERATION :: int
  DOCUMENT :: string
  RELEVANCY :: int

definition qrel_line :: "dict_rel \<Rightarrow> string \<Rightarrow> string \<Rightarrow> qrel" where
  "qrel_line dict_rel doi item =
     \<lparr>TOPIC = doi, ITERATION = 0, DOCUMENT = strip item,
      RELEVANCY = get_rel dict_rel doi (strip item)\<rparr>"

text \<open>
  A file written by the Release Builder, named by the topic id: a judgment file in the
  abstract-level or the document-level directory, or a topic description given by the
  strings written to it.
\<close>

datatype release_file =
    Abs_qrel string "qrel list"
  | Doc_qrel string "qrel list"
  | Topic string "string list"

definition nl :: string where
  "nl = [CHR 0x0A]"

text \<open>
  The writes at the end of the loop body: \<^verbatim>\<open>if 'abs'\<close>, then
  \<^verbatim>\<open>if 'doc' ... elif 'topic' ... else pass\<close>.
\<close>

definition write_release :: "string \<Rightarrow> dict_rel \<Rightarrow> string \<Rightarrow> string \<Rightarrow> string \<Rightarrow> string
    \<Rightarrow> string list \<Rightarrow> release_file list" where
  "write_release qrel_type dict_rel topic_id doi title qry list_boolean =
     (if qrel_type = ''abs''
      then [Abs_qrel topic_id (map (qrel_line dict_rel doi) list_boolean)] else [])
     @ (if qrel_type = ''doc''
        then [Doc_qrel topic_id (map (qrel_line dict_rel doi) list_boolean)]
        else if qrel_type = ''topic''
        then [Topic topic_id
                ([''Topic: '' @ doi @ '' '' @ nl @ nl,
                  ''Title: '' @ title @ '' '' @ nl @ nl,
                  ''Query: '' @ nl @ qry @ '' '' @ nl @ nl,
                  ''Pids: '' @ nl]
                 @ map (\<lambda>pid. ''    '' @ pid @ '' '' @ nl) list_boolean)]
        else [])"

text \<open>
  \<^verbatim>\<open>line.split('|||')\<close>: the pieces between the occurrences of the separator,
  found from left to right. The first argument is the piece being read.
\<close>

fun split_bars :: "string \<Rightarrow> string \<Rightarrow> string list" where
  "split_bars cur (a # b # c # cs) =
     (if a = CHR ''|'' \<and> b = CHR ''|'' \<and> c = CHR ''|''
      then cur # split_bars [] cs
      else split_bars (cur @ [a]) (b # c # cs))"
| "split_bars cur cs = [cur @ cs]"

text \<open>
  The loop of \<^verbatim>\<open>read_title\<close> over the lines of the title file: unpacking the
  pieces of a line into two names raises ValueError unless there are exactly two.
\<close>

fun read_title_lines :: "string list \<Rightarrow> (string \<rightharpoonup> string) \<Rightarrow> py_error + (string \<rightharpoonup> string)" where
  "read_title_lines [] dict_title = Inr dict_title"
| "read_title_lines (line # ls) dict_title =
     (case split_bars [] line of
        [topic_id, title] \<Rightarrow> read_title_lines ls (dict_title(strip topic_id \<mapsto> strip title))
      | _ \<Rightarrow> Inl ValueError)"

text \<open>
  \<^verbatim>\<open>read_title()\<close>. The title file is \<open>None\<close> when it cannot be opened
  (\<^verbatim>\<open>codecs.open\<close> raises IOError), and otherwise the lines that iterating over
  it yields.
\<close>

definition read_title :: "string list option \<Rightarrow> py_error + (string \<rightharpoonup> string)" where
  "read_title title_file =
     (case title_file of
        None \<Rightarrow> Inl IOError
      | Some ls \<Rightarrow> read_title_lines ls Map.empty)"

text \<open>
  The loop body of \<^verbatim>\<open>make_release_file\<close> for one topic id: the assertion, the
  identifier list (\<open>ls\<close> is \<open>None\<close> when the file of that name cannot be opened in
  the identifier-list directory, as for a name that \<^verbatim>\<open>os.walk\<close> lists from a
  subdirectory, and \<^verbatim>\<open>codecs.open\<close> raises IOError), the lookups
  (\<^verbatim>\<open>dict_title[topic_id]\<close> raises KeyError for a topic without a title) and the
  writes.
\<close>

definition release_topic :: "string \<Rightarrow> dict_rel \<Rightarrow> dict_review \<Rightarrow> (string \<rightharpoonup> string) \<Rightarrow> string
    \<Rightarrow> string list option \<Rightarrow> py_error + release_file list" where
  "release_topic qrel_type dict_rel dr dict_title topic_id ls =
     (case dr topic_id of
        None \<Rightarrow> Inl AssertionError
      | Some rv \<Rightarrow>
          (case ls of
             None \<Rightarrow> Inl IOError
           | Some fr \<Rightarrow>
               (case dict_title topic_id of
                  None \<Rightarrow> Inl KeyError
                | Some title \<Rightarrow>
                    Inr (write_release qrel_type dict_rel topic_id (review_doi rv) title
                           (query rv) (read_pids fr)))))"

fun release_loop :: "string \<Rightarrow> dict_rel \<Rightarrow> dict_review \<Rightarrow> (string \<rightharpoonup> string) \<Rightarrow> string list
    \<Rightarrow> (string \<Rightarrow> string list option) \<Rightarrow> release_file list
    \<Rightarrow> py_error + release_file list" where
  "release_loop qrel_type dict_rel dr dict_title [] lines_of written = Inr written"
| "release_loop qrel_type dict_rel dr dict_title (topic_id # ids) lines_of written =
     (case release_topic qrel_type dict_rel dr dict_title topic_id (lines_of topic_id) of
        Inl err \<Rightarrow> Inl err
      | Inr fs \<Rightarrow> release_loop qrel_type dict_rel dr dict_title ids lines_of (written @ fs))"

text \<open>
  \<^verbatim>\<open>make_release_file(qrel_type)\<close>: the three loads in the order of the source,
  then the loop over the topic ids. \<open>relevance_file\<close> is the curated table: \<open>None\<close>
  when \<^verbatim>\<open>relevance_index.csv\<close> cannot be opened (\<^verbatim>\<open>read_clef_rel\<close> raises
  IOError), and otherwise its rows. \<open>ovid_search\<close> is the outcome of the call
  \<^verbatim>\<open>read_ovid_search_file()\<close>, which reads the spreadsheet through openpyxl: the
  dictionary it returns, or the exception that the call raises. \<open>title_file\<close> is the
  title file, \<open>files\<close> are the names listed in the identifier-list directory and
  \<open>lines_of\<close> gives the lines of each. The output directories exist
  (\<^verbatim>\<open>check_existing\<close> creates them), so the writes do not fail.
\<close>

definition make_release_file :: "string \<Rightarrow> csv_row list option \<Rightarrow> py_error + dict_review
    \<Rightarrow> string list option \<Rightarrow> string list \<Rightarrow> (string \<Rightarrow> string list option)
    \<Rightarrow> py_error + release_file list" where
  "make_release_file qrel_type relevance_file ovid_search title_file files lines_of =
     (case (case relevance_file of
              None \<Rightarrow> Inl IOError
            | Some rows \<Rightarrow> read_clef_rel qrel_type rows) of
        Inl err \<Rightarrow> Inl err
      | Inr dict_rel \<Rightarrow>
          (case ovid_search of
             Inl err \<Rightarrow> Inl err
           | Inr dr \<Rightarrow>
               (case read_title title_file of
                  Inl err \<Rightarrow> Inl err
                | Inr dict_title \<Rightarrow>
                    release_loop qrel_type dict_rel dr dict_title (get_file_ids files)
                      lines_of [])))"

section \<open>TREC-style Formatter\<close>

record trec_doc =
  DOCNO :: string
  TITLE :: string
  TEXT :: string

text \<open>The five writes of a record.\<close>

definition trec_text :: "trec_doc \<Rightarrow> string" where
  "trec_text d =
     ''<DOC>'' @ nl
     @ ''<DOCNO>'' @ DOCNO d @ ''</DOCNO>'' @ nl
     @ ''<TITLE>'' @ TITLE d @ ''</TITLE>'' @ nl
     @ ''<TEXT>'' @ TEXT d @ ''</TEXT>'' @ nl
     @ ''</DOC>'' @ nl @ nl"

text \<open>
  The \<^verbatim>\<open>try\<close> block: the data of the text children of every
  \<^verbatim>\<open>AbstractText\<close> element below the article, joined by newlines.
  \<^verbatim>\<open>getElementsByTagName\<close> returns a list, empty when no element has the tag, and no
  statement of the block raises on a parsed tree; the \<^verbatim>\<open>except\<close> branch, which holds
  the only \<^verbatim>\<open>print\<close> of the Formatter, is never entered.
\<close>

definition abstract_text :: "node \<Rightarrow> string" where
  "abstract_text Article =
     join nl (concat (map (\<lambda>abstract_node. text_data (childNodes abstract_node))
                        (getElementsByTagName Article ''AbstractText'')))"

text \<open>
  The loop body for one \<^verbatim>\<open>PubmedArticle\<close>: the record written and the lines printed
  to the console.
\<close>

definition trec_citation :: "node \<Rightarrow> py_error + (trec_doc \<times> string list)" where
  "trec_citation r =
     (case getElementsByTagName r ''MedlineCitation'' of
        [] \<Rightarrow> Inl IndexError
      | MedlineCitation # _ \<Rightarrow>
          (case get_tag_text MedlineCitation ''PMID'' of
             Inl err \<Rightarrow> Inl err
           | Inr pid \<Rightarrow>
               (case getElementsByTagName MedlineCitation ''Article'' of
                  [] \<Rightarrow> Inl IndexError
                | Article # _ \<Rightarrow>
                    (case get_tag_text Article ''ArticleTitle'' of
                       Inl err \<Rightarrow> Inl err
                     | Inr title \<Rightarrow>
                         Inr (\<lparr>DOCNO = pid, TITLE = title, TEXT = abstract_text Article\<rparr>,
                              [])))))"

fun trec_citations :: "node list \<Rightarrow> trec_doc list \<times> string list
    \<Rightarrow> py_error + (trec_doc list \<times> string list)" where
  "trec_citations [] out = Inr out"
| "trec_citations (r # rs) (docs, console) =
     (case trec_citation r of
        Inl err \<Rightarrow> Inl err
      | Inr (d, printed) \<Rightarrow> trec_citations rs (docs @ [d], console @ printed))"

text \<open>
  \<^verbatim>\<open>trec_format_abstract\<close> for one raw response file with document element
  \<open>root\<close>: the records written to the tagged-text file, and the console.
\<close>

definition trec_format_file :: "node \<Rightarrow> py_error + (trec_doc list \<times> string list)" where
  "trec_format_file root = trec_citations (getElementsByTagName root ''PubmedArticle'') ([], [])"

section \<open>Example inputs\<close>

text \<open>
  An instance of the parameter \<open>sp\<close> for the examples: what \<^verbatim>\<open>strptime(s, "%Y%m%d")\<close>
  returns on a string of eight digits, the shape of every date in the examples. Strings
  of another shape are rejected by this instance.
\<close>

definition days_in_month :: "nat \<Rightarrow> nat \<Rightarrow> nat" where
  "days_in_month y m =
     (if m = 2 then (if y mod 4 = 0 \<and> (y mod 100 \<noteq> 0 \<or> y mod 400 = 0) then 29 else 28)
      else if m \<in> {4, 6, 9, 11} then 30 else 31)"

definition strptime_Ymd :: strptime where
  "strptime_Ymd s =
     (if length s = 8 \<and> list_all isdigit s
      then (let y = int_of_digits (take 4 s);
                m = int_of_digits (take 2 (drop 4 s));
                d = int_of_digits (drop 6 s)
            in if 1 \<le> y \<and> 1 \<le> m \<and> m \<le> 12 \<and> 1 \<le> d \<and> d \<le> days_in_month y m
               then Inr (y, m, d) else Inl ValueError)
      else Inl ValueError)"

text \<open>
  A \<^verbatim>\<open>record\<close> element of a downloaded file with the given index attribute,
  identifier and creation date, and a file holding some records.
\<close>

definition ovid_record :: "string \<Rightarrow> string \<Rightarrow> string \<Rightarrow> node" where
  "ovid_record inx ui created =
     Element ''record'' [(''index'', inx)]
       [Element ''F'' [(''L'', ''Unique Identifier'')] [Element ''D'' [] [Text ui]],
        Element ''F'' [(''L'', ''Date Created'')] [Element ''D'' [] [Text created]]]"

definition ovid_file :: "node list \<Rightarrow> node" where
  "ovid_file records = Element ''records'' [] records"

text \<open>The metadata of one topic, \<^verbatim>\<open>'1'\<close>, with the window 20170101 to 20171231.\<close>

definition review_2017 :: review where
  "review_2017 = \<lparr>review_doi = ''CD000001'', url = ''http://example.org/CD000001'',
     query = ''q'', date = ''20170101 20171231''\<rparr>"

definition dict_review_2017 :: dict_review where
  "dict_review_2017 = [''1'' \<mapsto> review_2017]"

text \<open>
  A curated row that excludes document 123 from review CD000001, a curated row with
  another label whose review id holds no \<^verbatim>\<open>CD\<close> number, a title file with the
  title of topic \<^verbatim>\<open>'1'\<close>, an empty title file, and identifier-list files with the
  lines \<^verbatim>\<open>123\<close> and \<^verbatim>\<open>456\<close>.
\<close>

definition excluded_row :: csv_row where
  "excluded_row = \<lparr>row_review_doi = ''CD000001'', row_pubmed_id = ''123'',
     row_ref_type = ''excluded''\<rparr>"

definition other_row :: csv_row where
  "other_row = \<lparr>row_review_doi = ''10.1002/14651858.MR000012'', row_pubmed_id = ''1'',
     row_ref_type = ''maybe''\<rparr>"

definition title_file_1 :: "string list option" where
  "title_file_1 = Some [''1 ||| A title '' @ nl]"

definition title_file_empty :: "string list option" where
  "title_file_empty = Some []"

definition dict_title_1 :: "string \<rightharpoonup> string" where
  "dict_title_1 = [''1'' \<mapsto> ''A title'']"

definition pid_lines :: "string \<Rightarrow> string list option" where
  "pid_lines f = Some [''123'' @ nl, ''456'' @ nl]"

text \<open>
  A citation of a raw response file without an \<^verbatim>\<open>AbstractText\<close> element, and one
  whose abstract has two of them.
\<close>

definition citation_no_abstract :: node where
  "citation_no_abstract =
     Element ''PubmedArticle'' []
       [Element ''MedlineCitation'' []
          [Element ''PMID'' [] [Text ''123''],
           Element ''Article'' [] [Element ''ArticleTitle'' [] [Text ''A title'']]]]"

definition citation_two_parts :: node where
  "citation_two_parts =
     Element ''PubmedArticle'' []
       [Element ''MedlineCitation'' []
          [Element ''PMID'' [] [Text ''456''],
           Element ''Article'' []
             [Element ''ArticleTitle'' [] [Text ''Another title''],
              Element ''Abstract'' []
                [Element ''AbstractText'' [(''Label'', ''AIM'')] [Text ''First.''],
                 Element ''AbstractText'' [(''Label'', ''RESULTS'')] [Text ''Second.'']]]]]"

text \<open>
  Two downloaded batches whose records declare the same index, and two whose records
  declare different ones; \<open>batches\<close> maps the file names \<^verbatim>\<open>a\<close> to \<^verbatim>\<open>d\<close> to them.
\<close>

definition batches :: "string \<Rightarrow> node" where
  "batches f =
     (if f = ''a'' then ovid_file [ovid_record ''1'' ''111'' ''20170615'']
      else if f = ''b'' then ovid_file [ovid_record ''1'' ''222'' ''20170616'']
      else if f = ''c'' then ovid_file [ovid_record ''2'' ''222'' ''20170616'']
      else ovid_file [ovid_record ''1'' ''111'' ''20170615'',
                      ovid_record ''5'' ''555'' ''20180101''])"

section \<open>Properties of chunking\<close>

lemma concat_chunks_take:
  "concat (map (\<lambda>k. take n (drop (k * n) xs)) [0..<m]) = take (m * n) xs"
proof (induction m)
  case 0
  show ?case by simp
next
  case (Suc m)
  have "take (m * n) xs @ take n (drop (m * n) xs) = take (m * n + n) xs"
    by (simp add: take_add)
  with Suc show ?case by (simp add: add.commute)
qed

lemma chunk_count_covers: "0 < n \<Longrightarrow> (len::nat) \<le> ((len + n - 1) div n) * n"
proof -
  assume n: "0 < n"
  have "len + n - 1 = ((len + n - 1) div n) * n + (len + n - 1) mod n" by simp
  moreover have "(len + n - 1) mod n < n" using n by simp
  ultimately show ?thesis by linarith
qed

lemma chunk_start_inside: "0 < n \<Longrightarrow> k < (len + n - 1) div n \<Longrightarrow> k * n < (len::nat)"
proof -
  assume n: "0 < n" and k: "k < (len + n - 1) div n"
  from k have "Suc k \<le> (len + n - 1) div n" by simp
  then have "Suc k * n \<le> ((len + n - 1) div n) * n" by (rule mult_le_mono1)
  also have "\<dots> \<le> len + n - 1" by simp
  finally show ?thesis using n by simp
qed

text \<open>
  Claim C6. With chunk size 500, a sequence of 1000 items is split into exactly two
  chunks of 500 items each, and a sequence of 501 items into exactly two chunks of 500
  items and 1 item.
\<close>

theorem chunks_by_element_500:
  "(length arr = 1000 \<longrightarrow>
      chunks_by_element arr 500 = Inr [take 500 arr, drop 500 arr]
      \<and> length (take 500 arr) = 500 \<and> length (drop 500 arr) = 500)
   \<and> (length arr = 501 \<longrightarrow>
      chunks_by_element arr 500 = Inr [take 500 arr, drop 500 arr]
      \<and> length (take 500 arr) = 500 \<and> length (drop 500 arr) = 1)"
  by (simp add: chunks_by_element_def range_step_def slice_def upt_rec)

theorem chunks_by_element_500_witness:
  "length (replicate 1000 (0::nat)) = 1000
   \<and> chunks_by_element (replicate 1000 (0::nat)) 500 = Inr [replicate 500 0, replicate 500 0]
   \<and> length (replicate 501 (0::nat)) = 501
   \<and> chunks_by_element (replicate 501 (0::nat)) 500 = Inr [replicate 500 0, replicate 1 0]"
  using chunks_by_element_500 [of "replicate 1000 (0::nat)"]
    chunks_by_element_500 [of "replicate 501 (0::nat)"]
  by simp

text \<open>
  Claim C10. For every list \<open>arr\<close> and every chunk size \<open>n > 0\<close>,
  \<open>chunks_by_element arr n\<close> returns chunks whose concatenation, in order, is \<open>arr\<close>;
  every chunk is non-empty and has at most \<open>n\<close> elements, and every chunk except
  possibly the last has exactly \<open>n\<close>.
\<close>

theorem chunks_by_element_partition:
  assumes "0 < n"
  shows "\<exists>cs. chunks_by_element arr n = Inr cs \<and> concat cs = arr
           \<and> (\<forall>c \<in> set cs. c \<noteq> [] \<and> int (length c) \<le> n)
           \<and> (\<forall>i. Suc i < length cs \<longrightarrow> int (length (cs ! i)) = n)"
proof -
  define m where "m = nat n"
  define cnt where "cnt = (length arr + m - 1) div m"
  define cs where "cs = map (\<lambda>k. take m (drop (k * m) arr)) [0..<cnt]"
  have m: "0 < m" "int m = n" using assms by (simp_all add: m_def)
  have eq: "chunks_by_element arr n = Inr cs"
    using assms
    by (simp add: chunks_by_element_def range_step_def slice_def cs_def cnt_def m_def o_def)
  have cat: "concat cs = arr"
    using chunk_count_covers[OF m(1), of "length arr"]
    by (simp add: cs_def concat_chunks_take cnt_def)
  have each: "\<forall>c \<in> set cs. c \<noteq> [] \<and> int (length c) \<le> n"
  proof
    fix c assume "c \<in> set cs"
    then obtain k where k: "k < cnt" and c: "c = take m (drop (k * m) arr)"
      by (auto simp: cs_def)
    from chunk_start_inside[OF m(1) k[unfolded cnt_def]] have "k * m < length arr" .
    then show "c \<noteq> [] \<and> int (length c) \<le> n" using m c by auto
  qed
  have full: "\<forall>i. Suc i < length cs \<longrightarrow> int (length (cs ! i)) = n"
  proof (intro allI impI)
    fix i assume "Suc i < length cs"
    then have i: "Suc i < cnt" by (simp add: cs_def)
    from chunk_start_inside[OF m(1) i[unfolded cnt_def]] have "Suc i * m < length arr" .
    then have "length (take m (drop (i * m) arr)) = m" by simp
    moreover have "cs ! i = take m (drop (i * m) arr)" using i by (simp add: cs_def)
    ultimately show "int (length (cs ! i)) = n" using m by simp
  qed
  from eq cat each full show ?thesis by blast
qed

theorem chunks_by_element_partition_witness:
  "(0::int) < 3
   \<and> (\<exists>cs. chunks_by_element [0, 1, 2, 3, 4, 5, 6, 7, 8, 9 :: nat] 3 = Inr cs
         \<and> concat cs = [0, 1, 2, 3, 4, 5, 6, 7, 8, 9]
         \<and> (\<forall>c \<in> set cs. c \<noteq> [] \<and> int (length c) \<le> 3)
         \<and> (\<forall>i. Suc i < length cs \<longrightarrow> int (length (cs ! i)) = 3))"
  using chunks_by_element_partition [of 3 "[0, 1, 2, 3, 4, 5, 6, 7, 8, 9 :: nat]"]
  by simp

section \<open>Properties of the PID Extractor\<close>

text \<open>
  Claim C1. The date filter is strictly exclusive at both boundaries: a record is kept
  (appended to \<open>list_ret\<close>) exactly when it has a creation date strictly greater than
  the start date and strictly less than the end date; a record whose creation date
  equals the start or the end date is not kept.
\<close>

theorem date_filter_strict:
  "(process_record sp start_date end_date r list_ret = Inr (list_ret @ [(inx, ui)])
      \<longleftrightarrow> (\<exists>d. read_record sp r = Inr (inx, ui, Some d) \<and> start_date < d \<and> d < end_date))
   \<and> (read_record sp r = Inr (inx, ui, Some d) \<and> (d = start_date \<or> d = end_date)
      \<longrightarrow> process_record sp start_date end_date r list_ret = Inr list_ret)"
  by (auto simp: process_record_def date_filter_def split: sum.splits option.splits prod.splits)

lemma read_ovid_record:
  "read_record strptime_Ymd (ovid_record ''1'' ''12345'' ''20170615'')
     = Inr (1, ''12345'', Some (2017, 6, 15))"
  "read_record strptime_Ymd (ovid_record ''2'' ''67890'' ''20170101'')
     = Inr (2, ''67890'', Some (2017, 1, 1))"
  "read_record strptime_Ymd (ovid_record ''3'' ''13579'' ''20171231'')
     = Inr (3, ''13579'', Some (2017, 12, 31))"
  by code_simp+

theorem date_filter_strict_witness:
  "process_record strptime_Ymd (2017, 1, 1) (2017, 12, 31)
      (ovid_record ''1'' ''12345'' ''20170615'') [] = Inr [(1, ''12345'')]
   \<and> process_record strptime_Ymd (2017, 1, 1) (2017, 12, 31)
      (ovid_record ''2'' ''67890'' ''20170101'') [] = Inr []
   \<and> process_record strptime_Ymd (2017, 1, 1) (2017, 12, 31)
      (ovid_record ''3'' ''13579'' ''20171231'') [] = Inr []"
  using date_filter_strict [of strptime_Ymd "(2017, 1, 1)" "(2017, 12, 31)"
          "ovid_record ''1'' ''12345'' ''20170615''" "[]" 1 "''12345''" "(2017, 6, 15)"]
        date_filter_strict [of strptime_Ymd "(2017, 1, 1)" "(2017, 12, 31)"
          "ovid_record ''2'' ''67890'' ''20170101''" "[]" 2 "''67890''" "(2017, 1, 1)"]
        date_filter_strict [of strptime_Ymd "(2017, 1, 1)" "(2017, 12, 31)"
          "ovid_record ''3'' ''13579'' ''20171231''" "[]" 3 "''13579''" "(2017, 12, 31)"]
  by (simp add: read_ovid_record)

text \<open>The accumulator \<open>list_ret\<close> is only ever extended.\<close>

lemma process_record_acc:
  "process_record sp s e r acc = map_sum id ((@) acc) (process_record sp s e r [])"
  by (simp add: process_record_def split: sum.splits prod.splits)

lemma process_records_acc:
  "process_records sp s e rs acc = map_sum id ((@) acc) (process_records sp s e rs [])"
proof (induction rs arbitrary: acc)
  case Nil show ?case by simp
next
  case (Cons r rs)
  show ?case
  proof (cases "process_record sp s e r []")
    case (Inl err)
    then show ?thesis by (simp add: process_record_acc[of _ _ _ _ acc])
  next
    case (Inr new)
    then show ?thesis
      by (cases "process_records sp s e rs []")
         (simp_all add: process_record_acc[of _ _ _ _ acc] Cons.IH[of "acc @ new"] Cons.IH[of new])
  qed
qed

lemma process_file_acc:
  "process_file sp dr t root acc = map_sum id ((@) acc) (process_file sp dr t root [])"
  unfolding process_file_def
  by (subst process_records_acc) (simp split: sum.splits prod.splits)

lemma process_files_acc:
  "process_files sp dr t roots acc = map_sum id ((@) acc) (process_files sp dr t roots [])"
proof (induction roots arbitrary: acc)
  case Nil show ?case by simp
next
  case (Cons r rs)
  show ?case
  proof (cases "process_file sp dr t r []")
    case (Inl err)
    then show ?thesis by (simp add: process_file_acc[of _ _ _ _ acc])
  next
    case (Inr new)
    then show ?thesis
      by (cases "process_files sp dr t rs []")
         (simp_all add: process_file_acc[of _ _ _ _ acc] Cons.IH[of "acc @ new"] Cons.IH[of new])
  qed
qed

text \<open>The result of the loop over the files, file by file.\<close>

lemma process_files_Inr_iff:
  "process_files sp dr t roots [] = Inr out \<longleftrightarrow>
     (\<exists>parts. map (\<lambda>root. process_file sp dr t root []) roots = map Inr parts \<and> out = concat parts)"
proof (induction roots arbitrary: out)
  case Nil show ?case by auto
next
  case (Cons r rs)
  show ?case
  proof (cases "process_file sp dr t r []")
    case (Inl err)
    then show ?thesis by (auto simp: map_eq_Cons_conv Cons_eq_map_conv)
  next
    case (Inr new)
    show ?thesis
    proof (cases "process_files sp dr t rs []")
      case (Inl err)
      with Cons.IH have no: "\<And>parts. map (\<lambda>root. process_file sp dr t root []) rs \<noteq> map Inr parts"
        by auto
      from Inl Inr show ?thesis
        by (auto simp: process_files_acc[of _ _ _ _ new] Cons_eq_map_conv no)
    next
      case (Inr rest)
      with Cons.IH[of rest] obtain parts where
        parts: "map (\<lambda>root. process_file sp dr t root []) rs = map Inr parts" "rest = concat parts"
        by auto
      have uniq: "\<And>ps. map (\<lambda>root. process_file sp dr t root []) rs = map Inr ps \<Longrightarrow> ps = parts"
        using parts(1) by (metis inj_Inr inj_map_eq_map)
      from \<open>process_file sp dr t r [] = Inr new\<close> Inr parts show ?thesis
        by (auto simp: process_files_acc[of _ _ _ _ new] Cons_eq_map_conv dest: uniq)
    qed
  qed
qed

text \<open>Listing the files of a topic in another order permutes \<open>list_ret\<close>.\<close>

lemma mset_concat_map_perm:
  assumes "mset xs' = mset xs"
  shows "mset (concat (map g xs')) = mset (concat (map g xs))"
proof -
  have "mset (concat (map g ys)) = sum_mset (image_mset (\<lambda>x. mset (g x)) (mset ys))" for ys
    by (simp add: mset_concat o_def flip: sum_mset_sum_list)
  with assms show ?thesis by simp
qed

lemma process_files_perm:
  assumes perm: "mset roots' = mset roots"
    and ok: "process_files sp dr t roots [] = Inr out"
  shows "\<exists>out'. process_files sp dr t roots' [] = Inr out' \<and> mset out' = mset out"
proof -
  let ?f = "\<lambda>root. process_file sp dr t root []"
  let ?g = "\<lambda>root. projr (?f root)"
  from ok obtain parts where parts: "map ?f roots = map Inr parts" "out = concat parts"
    by (auto simp: process_files_Inr_iff)
  have each: "?f root = Inr (?g root)" if "root \<in> set roots" for root
  proof -
    from that parts(1) have "?f root \<in> set (map Inr parts)" by (metis image_eqI set_map)
    then show ?thesis by auto
  qed
  have "map ?f roots = map Inr (map ?g roots)" using each by simp
  with parts have out: "out = concat (map ?g roots)"
    by (metis inj_Inr inj_map_eq_map)
  from perm have "set roots' = set roots" by (rule mset_eq_setD)
  then have "map ?f roots' = map Inr (map ?g roots')" using each by simp
  then have "process_files sp dr t roots' [] = Inr (concat (map ?g roots'))"
    unfolding process_files_Inr_iff by (intro exI[of _ "map ?g roots'"] conjI refl)
  moreover have "mset (concat (map ?g roots')) = mset out"
    unfolding out using perm by (rule mset_concat_map_perm)
  ultimately show ?thesis by blast
qed

lemma collect_pid_perm:
  assumes "mset files' = mset files"
    and "collect_pid sp dr t files dom_of = Inr list_ret"
  shows "\<exists>list_ret'. collect_pid sp dr t files' dom_of = Inr list_ret'
           \<and> mset list_ret' = mset list_ret"
proof -
  from assms(1) have "mset (map dom_of (get_file_ids files')) = mset (map dom_of (get_file_ids files))"
    by (simp add: get_file_ids_def)
  from process_files_perm[OF this] assms(2) show ?thesis
    by (simp add: collect_pid_def)
qed

text \<open>Every pair in \<open>list_ret\<close> was read from a record that passed the date filter.\<close>

lemma process_records_sound:
  "process_records sp s e rs acc = Inr out \<Longrightarrow> p \<in> set out \<Longrightarrow>
     p \<in> set acc \<or> (\<exists>r \<in> set rs. \<exists>d. read_record sp r = Inr (fst p, snd p, Some d) \<and> s < d \<and> d < e)"
proof (induction rs arbitrary: acc)
  case Nil
  then show ?case by simp
next
  case (Cons r rs)
  from Cons.prems(1) obtain acc' where
    step: "process_record sp s e r acc = Inr acc'" and rest: "process_records sp s e rs acc' = Inr out"
    by (auto split: sum.splits)
  from Cons.IH[OF rest Cons.prems(2)] show ?case
  proof
    assume "p \<in> set acc'"
    with step show ?thesis
      by (auto simp: process_record_def date_filter_def split: sum.splits option.splits prod.splits if_splits)
  next
    assume "\<exists>r \<in> set rs. \<exists>d. read_record sp r = Inr (fst p, snd p, Some d) \<and> s < d \<and> d < e"
    then show ?thesis by auto
  qed
qed

lemma process_files_sound:
  "process_files sp dr t roots acc = Inr out \<Longrightarrow> p \<in> set out \<Longrightarrow>
     p \<in> set acc \<or> (\<exists>root \<in> set roots. \<exists>s e. date_window sp dr t = Inr (s, e)
        \<and> (\<exists>r \<in> set (getElementsByTagName root ''record'').
              \<exists>d. read_record sp r = Inr (fst p, snd p, Some d) \<and> s < d \<and> d < e))"
proof (induction roots arbitrary: acc)
  case Nil
  then show ?case by simp
next
  case (Cons root roots)
  from Cons.prems(1) obtain acc' where
    step: "process_file sp dr t root acc = Inr acc'" and rest: "process_files sp dr t roots acc' = Inr out"
    by (auto split: sum.splits)
  from Cons.IH[OF rest Cons.prems(2)] show ?case
  proof
    assume p: "p \<in> set acc'"
    from step obtain s e where w: "date_window sp dr t = Inr (s, e)"
      and rs: "process_records sp s e (getElementsByTagName root ''record'') acc = Inr acc'"
      by (auto simp: process_file_def split: sum.splits prod.splits)
    from process_records_sound[OF rs p] w show ?thesis by auto
  next
    assume "\<exists>root \<in> set roots. \<exists>s e. date_window sp dr t = Inr (s, e)
        \<and> (\<exists>r \<in> set (getElementsByTagName root ''record'').
              \<exists>d. read_record sp r = Inr (fst p, snd p, Some d) \<and> s < d \<and> d < e)"
    then show ?thesis by auto
  qed
qed

text \<open>The identifier list as the later stages read it.\<close>

lemma read_pids_loop_snoc:
  "read_pids_loop (ls @ [l]) acc acc =
     (if strip l \<in> set (read_pids_loop ls acc acc) then read_pids_loop ls acc acc
      else read_pids_loop ls acc acc @ [strip l])"
  by (induction ls arbitrary: acc) simp_all

lemma read_pids_loop_set:
  "set (read_pids_loop ls acc acc) = set acc \<union> strip ` set ls"
  by (induction ls arbitrary: acc) auto

lemma read_pids_loop_distinct:
  "distinct acc \<Longrightarrow> distinct (read_pids_loop ls acc acc)"
  by (induction ls arbitrary: acc) auto

lemma read_pids_set: "set (read_pids ls) = strip ` set ls"
  by (simp add: read_pids_def read_pids_loop_set)

lemma read_pids_distinct: "distinct (read_pids ls)"
  by (simp add: read_pids_def read_pids_loop_distinct)

lemma read_pids_snoc:
  "read_pids (ls @ [l]) =
     (if strip l \<in> strip ` set ls then read_pids ls else read_pids ls @ [strip l])"
  by (simp add: read_pids_def read_pids_loop_snoc read_pids_loop_set)

lemma read_pids_remdups: "read_pids ls = rev (remdups (rev (map strip ls)))"
proof (induction ls rule: rev_induct)
  case Nil
  show ?case by (simp add: read_pids_def)
next
  case (snoc l ls)
  then show ?case by (simp add: read_pids_snoc)
qed

lemma read_pids_length: "length (read_pids ls) = card (strip ` set ls)"
  using distinct_card[OF read_pids_distinct, of ls] by (simp add: read_pids_set)

text \<open>
  Claim C2. Deduplication differs between the stages. The Extractor does not
  deduplicate: its output for a topic can contain an identifier twice, and it holds one
  line for every record that passed the filter. The identifier sequence that the Release
  Builder uses has no duplicates: \<open>read_pids\<close> keeps the first occurrence of every
  (stripped) identifier and leaves the kept ones in the order in which they were first
  seen, that is, a line is appended at the end when its identifier has not occurred
  before and dropped otherwise.
\<close>

theorem dedup_asymmetry:
  "(\<exists>files pids. extract_pid_topic strptime_Ymd dict_review_2017 ''1'' files batches = Inr pids
        \<and> \<not> distinct pids)
   \<and> (extract_pid_topic sp dr t files dom_of = Inr pids \<longrightarrow>
        (\<exists>list_ret. collect_pid sp dr t files dom_of = Inr list_ret
            \<and> mset pids = mset (map snd list_ret)))
   \<and> distinct (read_pids ls)
   \<and> set (read_pids ls) = strip ` set ls
   \<and> read_pids [] = []
   \<and> read_pids (ls @ [l]) =
       (if strip l \<in> strip ` set ls then read_pids ls else read_pids ls @ [strip l])
   \<and> read_pids ls = rev (remdups (rev (map strip ls)))"
proof (intro conjI impI)
  have "extract_pid_topic strptime_Ymd dict_review_2017 ''1'' [''a'', ''d''] batches = Inr [''111'', ''111'']"
    by code_simp
  then show "\<exists>files pids. extract_pid_topic strptime_Ymd dict_review_2017 ''1'' files batches = Inr pids
        \<and> \<not> distinct pids"
    by (intro exI[of _ "[''a'', ''d'']"] exI[of _ "[''111'', ''111'']"]) simp
  show "\<exists>list_ret. collect_pid sp dr t files dom_of = Inr list_ret
            \<and> mset pids = mset (map snd list_ret)"
    if "extract_pid_topic sp dr t files dom_of = Inr pids"
    using that by (auto simp: extract_pid_topic_def write_pids_def split: sum.splits if_splits)
  show "read_pids [] = []" by (simp add: read_pids_def)
qed (rule read_pids_distinct read_pids_set read_pids_snoc read_pids_remdups)+

lemma extract_pid_ad:
  "extract_pid_topic strptime_Ymd dict_review_2017 ''1'' [''a'', ''d''] batches = Inr [''111'', ''111'']"
  by code_simp

theorem dedup_asymmetry_witness:
  "extract_pid_topic strptime_Ymd dict_review_2017 ''1'' [''a'', ''d''] batches = Inr [''111'', ''111'']
   \<and> (\<exists>list_ret. collect_pid strptime_Ymd dict_review_2017 ''1'' [''a'', ''d''] batches = Inr list_ret
         \<and> mset [''111'', ''111''] = mset (map snd list_ret))
   \<and> distinct (read_pids [''111'' @ nl, ''222'' @ nl, ''111'' @ nl])"
  using dedup_asymmetry [of strptime_Ymd dict_review_2017 "''1''" "[''a'', ''d'']" batches
      "[''111'', ''111'']" "[''111'' @ nl, ''222'' @ nl, ''111'' @ nl]"]
  by (simp add: extract_pid_ad)

text \<open>
  Claim C3, as the code has it. The identifier list written for a topic can contain
  duplicates (see the example below); the list that the later stages make of it when
  they read it has none. Every identifier written is that of a record of one of the
  topic's files whose creation date lies strictly inside the topic's date window.
\<close>

theorem extract_pid_window:
  assumes "extract_pid_topic sp dr t files dom_of = Inr pids"
  shows "(\<forall>ui \<in> set pids. \<exists>f \<in> set (get_file_ids files).
           \<exists>r \<in> set (getElementsByTagName (dom_of f) ''record'').
           \<exists>inx d start_date end_date.
              date_window sp dr t = Inr (start_date, end_date)
              \<and> read_record sp r = Inr (inx, ui, Some d)
              \<and> start_date < d \<and> d < end_date)
     \<and> distinct (read_pids ls)"
proof (intro conjI ballI)
  fix ui assume ui: "ui \<in> set pids"
  from assms obtain list_ret where c: "collect_pid sp dr t files dom_of = Inr list_ret"
    and pids: "pids = map snd (sort_key fst list_ret)"
    by (auto simp: extract_pid_topic_def write_pids_def split: sum.splits if_splits)
  from ui pids obtain inx where "(inx, ui) \<in> set list_ret" by auto
  with process_files_sound[OF c[unfolded collect_pid_def], of "(inx, ui)"]
  show "\<exists>f \<in> set (get_file_ids files).
           \<exists>r \<in> set (getElementsByTagName (dom_of f) ''record'').
           \<exists>inx d start_date end_date.
              date_window sp dr t = Inr (start_date, end_date)
              \<and> read_record sp r = Inr (inx, ui, Some d)
              \<and> start_date < d \<and> d < end_date"
    by fastforce
next
  show "distinct (read_pids ls)" by (rule read_pids_distinct)
qed

text \<open>
  The claim as stated fails: two batches that hold the same record give a list with the
  identifier twice.
\<close>

theorem extract_pid_window_counterexample:
  "extract_pid_topic strptime_Ymd dict_review_2017 ''1'' [''a'', ''d''] batches = Inr [''111'', ''111'']
   \<and> \<not> distinct [''111'', ''111'']"
proof -
  have "extract_pid_topic strptime_Ymd dict_review_2017 ''1'' [''a'', ''d''] batches = Inr [''111'', ''111'']"
    by code_simp
  then show ?thesis by simp
qed

theorem extract_pid_window_witness:
  "extract_pid_topic strptime_Ymd dict_review_2017 ''1'' [''a'', ''d''] batches = Inr [''111'', ''111'']
   \<and> (\<exists>f r inx d start_date end_date.
         f \<in> set (get_file_ids [''a'', ''d''])
         \<and> r \<in> set (getElementsByTagName (batches f) ''record'')
         \<and> date_window strptime_Ymd dict_review_2017 ''1'' = Inr (start_date, end_date)
         \<and> read_record strptime_Ymd r = Inr (inx, ''111'', Some d)
         \<and> start_date < d \<and> d < end_date)
   \<and> distinct (read_pids [''111'' @ nl, ''111'' @ nl])"
  using extract_pid_window [OF extract_pid_ad, of "[''111'' @ nl, ''111'' @ nl]"] extract_pid_ad
  by (simp add: Bex_def)

text \<open>
  Claim C7, as the code has it. The Extractor is a function of the batches in the order
  in which they are listed. What it writes is \<open>list_ret\<close> sorted by the declared index
  in ascending order, and the sort is stable: records with equal index stay in the order
  in which they were read. When the indices of the surviving records are pairwise distinct,
  the output does not depend on the order in which the batches are listed, so the index
  alone determines it.
\<close>

theorem extract_pid_order:
  assumes "collect_pid sp dr t files dom_of = Inr list_ret"
  shows "extract_pid_topic sp dr t files dom_of = write_pids (map snd (sort_key fst list_ret))
    \<and> sorted (map fst (sort_key fst list_ret))
    \<and> (\<forall>k. filter (\<lambda>p. fst p = k) (sort_key fst list_ret) = filter (\<lambda>p. fst p = k) list_ret)
    \<and> (distinct (map fst list_ret) \<and> mset files' = mset files
        \<longrightarrow> extract_pid_topic sp dr t files' dom_of = extract_pid_topic sp dr t files dom_of)"
proof (intro conjI allI impI)
  show eq: "extract_pid_topic sp dr t files dom_of = write_pids (map snd (sort_key fst list_ret))"
    using assms by (simp add: extract_pid_topic_def)
  show "sorted (map fst (sort_key fst list_ret))" by simp
  show "filter (\<lambda>p. fst p = k) (sort_key fst list_ret) = filter (\<lambda>p. fst p = k) list_ret" for k
    by (rule sort_key_stable)
  show "extract_pid_topic sp dr t files' dom_of = extract_pid_topic sp dr t files dom_of"
    if h: "distinct (map fst list_ret) \<and> mset files' = mset files"
  proof -
    from h collect_pid_perm[OF _ assms] obtain list_ret' where
      c: "collect_pid sp dr t files' dom_of = Inr list_ret'" and m: "mset list_ret' = mset list_ret"
      by blast
    from h have "inj_on fst (set list_ret)" by (simp add: distinct_map)
    with m have inj: "inj_on fst (set list_ret')" by (metis mset_eq_setD)
    have "sort_key fst list_ret' = sort_key fst list_ret"
      by (rule sort_key_inj_key_eq) (simp_all add: m inj)
    with c eq show ?thesis by (simp add: extract_pid_topic_def)
  qed
qed

text \<open>
  The claim as stated fails: with two surviving records of equal index, the same batches
  listed in another order give another output.
\<close>

theorem extract_pid_order_counterexample:
  "mset [''b'', ''a''] = mset [''a'', ''b'']
   \<and> extract_pid_topic strptime_Ymd dict_review_2017 ''1'' [''a'', ''b''] batches = Inr [''111'', ''222'']
   \<and> extract_pid_topic strptime_Ymd dict_review_2017 ''1'' [''b'', ''a''] batches = Inr [''222'', ''111'']"
proof -
  have "extract_pid_topic strptime_Ymd dict_review_2017 ''1'' [''a'', ''b''] batches = Inr [''111'', ''222'']"
    by code_simp
  moreover have "extract_pid_topic strptime_Ymd dict_review_2017 ''1'' [''b'', ''a''] batches = Inr [''222'', ''111'']"
    by code_simp
  ultimately show ?thesis by simp
qed

lemma collect_pid_ca:
  "collect_pid strptime_Ymd dict_review_2017 ''1'' [''c'', ''a''] batches = Inr [(2, ''222''), (1, ''111'')]"
  by code_simp

theorem extract_pid_order_witness:
  "collect_pid strptime_Ymd dict_review_2017 ''1'' [''c'', ''a''] batches = Inr [(2, ''222''), (1, ''111'')]
   \<and> distinct (map fst [(2::nat, ''222''), (1, ''111'')])
   \<and> mset [''a'', ''c''] = mset [''c'', ''a'']
   \<and> extract_pid_topic strptime_Ymd dict_review_2017 ''1'' [''c'', ''a''] batches = Inr [''111'', ''222'']
   \<and> extract_pid_topic strptime_Ymd dict_review_2017 ''1'' [''a'', ''c''] batches = Inr [''111'', ''222'']"
  using extract_pid_order [OF collect_pid_ca, of "[''a'', ''c'']"]
  by (simp add: collect_pid_ca write_pids_def isascii_def)

section \<open>Properties of the relevance table\<close>

text \<open>
  For the two judgment kinds no row ends the loop early, so a table is loaded row by row;
  the flags stored are those of the two kinds.
\<close>

lemma read_clef_rows_snoc:
  "qt = ''abs'' \<or> qt = ''doc'' \<Longrightarrow>
   read_clef_rows qt (rows @ [row]) d =
     (case read_clef_rows qt rows d of Inl err \<Rightarrow> Inl err | Inr d' \<Rightarrow> read_clef_rows qt [row] d')"
  by (induction rows arbitrary: d) (auto split: option.splits)

lemma read_clef_rows_flags:
  "read_clef_rows qt rows d = Inr d' \<Longrightarrow> d' doi pid = Some v \<Longrightarrow>
     d doi pid = Some v \<or> (qt = ''abs'' \<and> v = 1) \<or> (qt = ''doc'' \<and> (v = 0 \<or> v = 1))"
proof (induction rows arbitrary: d)
  case Nil
  then show ?case by simp
next
  case (Cons row rows)
  from Cons.prems(1) obtain m where m: "search_CD (row_review_doi row) = Some m"
    by (auto split: option.splits)
  show ?case
  proof (cases "qt = ''abs'' \<or> qt = ''doc''")
    case False
    with Cons.prems m show ?thesis by auto
  next
    case True
    with Cons.prems(1) m obtain d1 where
      rest: "read_clef_rows qt rows d1 = Inr d'"
      and d1: "d1 = d \<or> (\<exists>v1. d1 = set_rel d (str_strip m) (str_strip (row_pubmed_id row)) v1
                  \<and> ((qt = ''abs'' \<and> v1 = 1) \<or> (qt = ''doc'' \<and> (v1 = 0 \<or> v1 = 1))))"
      by (auto split: if_splits)
    from Cons.IH[OF rest Cons.prems(2)] d1 show ?thesis
      by (auto simp: set_rel_def split: if_splits)
  qed
qed

lemma read_clef_rel_flags:
  assumes "read_clef_rel qt rows = Inr dict_rel"
  shows "get_rel dict_rel doi pid \<in> {0, 1}"
    and "qt = ''abs'' \<Longrightarrow> dict_rel doi pid \<in> {None, Some 1}"
proof -
  have "dict_rel doi pid = None \<or> (\<exists>v. dict_rel doi pid = Some v)" by auto
  then show "get_rel dict_rel doi pid \<in> {0, 1}"
    using read_clef_rows_flags[OF assms[unfolded read_clef_rel_def], of doi pid]
    by (auto simp: get_rel_def empty_rel_def)
  show "dict_rel doi pid \<in> {None, Some 1}" if "qt = ''abs''"
    using read_clef_rows_flags[OF assms[unfolded read_clef_rel_def], of doi pid] that
    by (cases "dict_rel doi pid") (auto simp: empty_rel_def)
qed

lemma read_clef_rows_no_code:
  "qt = ''abs'' \<or> qt = ''doc'' \<Longrightarrow> row \<in> set rows \<Longrightarrow> search_CD (row_review_doi row) = None
     \<Longrightarrow> read_clef_rows qt rows d = Inl IndexError"
proof (induction rows arbitrary: d)
  case Nil
  then show ?case by simp
next
  case (Cons r rows)
  show ?case
  proof (cases "search_CD (row_review_doi r)")
    case None
    then show ?thesis by simp
  next
    case (Some m)
    with Cons.prems have "row \<in> set rows" by auto
    from Cons.IH[OF Cons.prems(1) this Cons.prems(3)] Some Cons.prems(1)
    show ?thesis by auto
  qed
qed

text \<open>
  Claim C4, as the code has it. The loader maps the curated labels per judgment kind.
  Taking a table row by row, for a row whose review id holds a \<^verbatim>\<open>CD\<close> number: for
  the abstract-level kind a row labelled \<^verbatim>\<open>included\<close> or \<^verbatim>\<open>excluded\<close> stores
  flag 1 for its review and document; for the document-level kind \<^verbatim>\<open>included\<close>
  stores 1 and \<^verbatim>\<open>excluded\<close> stores 0; for both kinds a row with any other label
  leaves the table as it was. Hence a row labelled \<^verbatim>\<open>excluded\<close> gives flag 1 in the
  abstract-level table and flag 0 in the document-level table for the same identifier.
  A row whose review id holds no \<^verbatim>\<open>CD\<close> number is not skipped, whatever its label:
  for both kinds a table that contains such a row fails to load, with IndexError.
\<close>

theorem read_clef_rel_labels:
  "(search_CD (row_review_doi row) = Some m \<longrightarrow>
      (read_clef_rel ''abs'' rows = Inr da \<longrightarrow>
            read_clef_rel ''abs'' (rows @ [row]) =
              Inr (if row_ref_type row = ''included'' \<or> row_ref_type row = ''excluded''
                   then set_rel da (str_strip m) (str_strip (row_pubmed_id row)) 1 else da))
      \<and> (read_clef_rel ''doc'' rows = Inr dd \<longrightarrow>
            read_clef_rel ''doc'' (rows @ [row]) =
              Inr (if row_ref_type row = ''included''
                   then set_rel dd (str_strip m) (str_strip (row_pubmed_id row)) 1
                   else if row_ref_type row = ''excluded''
                   then set_rel dd (str_strip m) (str_strip (row_pubmed_id row)) 0 else dd))
      \<and> (row_ref_type row = ''excluded''
          \<and> read_clef_rel ''abs'' (rows @ [row]) = Inr da'
          \<and> read_clef_rel ''doc'' (rows @ [row]) = Inr dd' \<longrightarrow>
            da' (str_strip m) (str_strip (row_pubmed_id row)) = Some 1
            \<and> get_rel da' (str_strip m) (str_strip (row_pubmed_id row)) = 1
            \<and> dd' (str_strip m) (str_strip (row_pubmed_id row)) = Some 0
            \<and> get_rel dd' (str_strip m) (str_strip (row_pubmed_id row)) = 0))
   \<and> (search_CD (row_review_doi bad) = None \<and> bad \<in> set table \<longrightarrow>
        read_clef_rel ''abs'' table = Inl IndexError
        \<and> read_clef_rel ''doc'' table = Inl IndexError)"
proof (intro conjI impI)
  assume m: "search_CD (row_review_doi row) = Some m"
  show "read_clef_rel ''abs'' (rows @ [row]) =
              Inr (if row_ref_type row = ''included'' \<or> row_ref_type row = ''excluded''
                   then set_rel da (str_strip m) (str_strip (row_pubmed_id row)) 1 else da)"
    if "read_clef_rel ''abs'' rows = Inr da"
    using m that by (auto simp: read_clef_rel_def read_clef_rows_snoc)
  show "read_clef_rel ''doc'' (rows @ [row]) =
              Inr (if row_ref_type row = ''included''
                   then set_rel dd (str_strip m) (str_strip (row_pubmed_id row)) 1
                   else if row_ref_type row = ''excluded''
                   then set_rel dd (str_strip m) (str_strip (row_pubmed_id row)) 0 else dd)"
    if "read_clef_rel ''doc'' rows = Inr dd"
    using m that by (auto simp: read_clef_rel_def read_clef_rows_snoc)
  assume ex: "row_ref_type row = ''excluded''
          \<and> read_clef_rel ''abs'' (rows @ [row]) = Inr da'
          \<and> read_clef_rel ''doc'' (rows @ [row]) = Inr dd'"
  with m show "da' (str_strip m) (str_strip (row_pubmed_id row)) = Some 1"
    and "get_rel da' (str_strip m) (str_strip (row_pubmed_id row)) = 1"
    and "dd' (str_strip m) (str_strip (row_pubmed_id row)) = Some 0"
    and "get_rel dd' (str_strip m) (str_strip (row_pubmed_id row)) = 0"
    by (auto simp: read_clef_rel_def read_clef_rows_snoc set_rel_def get_rel_def
          split: sum.splits)
next
  assume "search_CD (row_review_doi bad) = None \<and> bad \<in> set table"
  then have b: "search_CD (row_review_doi bad) = None" "bad \<in> set table" by simp_all
  show "read_clef_rel ''abs'' table = Inl IndexError"
    using read_clef_rows_no_code[of "''abs''", OF _ b(2) b(1)] by (simp add: read_clef_rel_def)
  show "read_clef_rel ''doc'' table = Inl IndexError"
    using read_clef_rows_no_code[of "''doc''", OF _ b(2) b(1)] by (simp add: read_clef_rel_def)
qed

text \<open>
  The claim as stated fails: a row with another label whose review id holds no
  \<^verbatim>\<open>CD\<close> number is not skipped, the load raises IndexError for both kinds.
\<close>

lemma search_CD_other_row: "search_CD (row_review_doi other_row) = None"
  by code_simp

lemma read_clef_rel_other_row: "read_clef_rel qt [other_row] = Inl IndexError"
  by (simp add: read_clef_rel_def search_CD_other_row)

theorem read_clef_rel_labels_counterexample:
  "row_ref_type other_row = ''maybe''
   \<and> read_clef_rel ''abs'' [other_row] = Inl IndexError
   \<and> read_clef_rel ''doc'' [other_row] = Inl IndexError"
proof -
  have "row_ref_type other_row = ''maybe''" by (simp add: other_row_def)
  then show ?thesis by (simp add: read_clef_rel_other_row)
qed

lemma read_clef_rel_empty: "read_clef_rel qt [] = Inr empty_rel"
  by (simp add: read_clef_rel_def)

lemma search_CD_excluded_row: "search_CD (row_review_doi excluded_row) = Some ''CD000001''"
  by code_simp

theorem read_clef_rel_labels_witness:
  "search_CD (row_review_doi excluded_row) = Some ''CD000001''
   \<and> read_clef_rel ''abs'' [] = Inr empty_rel
   \<and> read_clef_rel ''abs'' [excluded_row] = Inr (set_rel empty_rel ''CD000001'' ''123'' 1)
   \<and> read_clef_rel ''doc'' [] = Inr empty_rel
   \<and> read_clef_rel ''doc'' [excluded_row] = Inr (set_rel empty_rel ''CD000001'' ''123'' 0)
   \<and> get_rel (set_rel empty_rel ''CD000001'' ''123'' 1) ''CD000001'' ''123'' = 1
   \<and> get_rel (set_rel empty_rel ''CD000001'' ''123'' 0) ''CD000001'' ''123'' = 0
   \<and> search_CD (row_review_doi other_row) = None
   \<and> other_row \<in> set [excluded_row, other_row]
   \<and> read_clef_rel ''abs'' [excluded_row, other_row] = Inl IndexError
   \<and> read_clef_rel ''doc'' [excluded_row, other_row] = Inl IndexError"
proof -
  have s: "str_strip ''CD000001'' = ''CD000001''"
    "str_strip (row_pubmed_id excluded_row) = ''123''"
    "row_ref_type excluded_row = ''excluded''"
    by code_simp+
  note inst = read_clef_rel_labels [where row = excluded_row and m = "''CD000001''"
      and rows = "[]" and da = empty_rel and dd = empty_rel
      and bad = other_row and table = "[excluded_row, other_row]"]
  have a: "read_clef_rel ''abs'' [excluded_row] = Inr (set_rel empty_rel ''CD000001'' ''123'' 1)"
   and d: "read_clef_rel ''doc'' [excluded_row] = Inr (set_rel empty_rel ''CD000001'' ''123'' 0)"
    using inst by (simp_all add: read_clef_rel_empty s search_CD_excluded_row)
  from inst [where da' = "set_rel empty_rel ''CD000001'' ''123'' 1"
      and dd' = "set_rel empty_rel ''CD000001'' ''123'' 0"]
  show ?thesis
    by (simp add: a d s read_clef_rel_empty search_CD_excluded_row search_CD_other_row)
qed

section \<open>Properties of the Release Builder\<close>

lemma release_loop_Inr:
  "release_loop qt d dr dt ids lines_of w = Inr out \<Longrightarrow>
     \<exists>fss. map (\<lambda>t. release_topic qt d dr dt t (lines_of t)) ids = map Inr fss
          \<and> out = w @ concat fss"
proof (induction ids arbitrary: w)
  case Nil
  then show ?case by simp
next
  case (Cons t ids)
  from Cons.prems obtain fs where
    step: "release_topic qt d dr dt t (lines_of t) = Inr fs"
    and rest: "release_loop qt d dr dt ids lines_of (w @ fs) = Inr out"
    by (auto split: sum.splits)
  from Cons.IH[OF rest] obtain fss where
    "map (\<lambda>t. release_topic qt d dr dt t (lines_of t)) ids = map Inr fss" "out = (w @ fs) @ concat fss"
    by blast
  with step show ?case by (intro exI[of _ "fs # fss"]) simp
qed

lemma release_topic_qrel:
  assumes "release_topic qt d dr dt t ls = Inr fs" and "qt = ''abs'' \<or> qt = ''doc''"
  shows "\<exists>rv fr. dr t = Some rv \<and> ls = Some fr
     \<and> fs = [(if qt = ''abs'' then Abs_qrel else Doc_qrel) t
               (map (qrel_line d (review_doi rv)) (read_pids fr))]"
  using assms
  by (auto simp: release_topic_def write_release_def split: option.splits)

text \<open>
  Claim C5, as the code has it. For a judgment kind (\<^verbatim>\<open>abs\<close> or \<^verbatim>\<open>doc\<close>) the
  Release Builder writes one judgment file per topic id; the number of its lines is the
  number of distinct (stripped) identifiers of the topic's identifier list; the relevance
  flag of every line is 0 or 1; and the flag is 0 exactly when the pair of review id and
  document id has no entry in the loaded table or has the entry 0, which the
  document-level kind stores for \<^verbatim>\<open>excluded\<close> rows. For the abstract-level kind the
  flag is 0 exactly when the pair has no entry.
\<close>

theorem judgment_files:
  assumes "make_release_file qt relevance_file ovid_search title_file files lines_of = Inr written"
    and "qt = ''abs'' \<or> qt = ''doc''"
  shows "\<exists>rows dict_rel dr. relevance_file = Some rows
     \<and> read_clef_rel qt rows = Inr dict_rel \<and> ovid_search = Inr dr
     \<and> length written = length (get_file_ids files)
     \<and> (\<forall>i < length written. \<exists>rv fr js.
           dr (get_file_ids files ! i) = Some rv
           \<and> lines_of (get_file_ids files ! i) = Some fr
           \<and> written ! i = (if qt = ''abs'' then Abs_qrel else Doc_qrel) (get_file_ids files ! i) js
           \<and> length js = card (strip ` set fr)
           \<and> (\<forall>q \<in> set js. TOPIC q = review_doi rv \<and> ITERATION q = 0
                 \<and> (RELEVANCY q = 0 \<or> RELEVANCY q = 1)
                 \<and> (RELEVANCY q = 0 \<longleftrightarrow>
                      dict_rel (TOPIC q) (DOCUMENT q) = None
                      \<or> dict_rel (TOPIC q) (DOCUMENT q) = Some 0)
                 \<and> (qt = ''abs'' \<longrightarrow>
                      (RELEVANCY q = 0 \<longleftrightarrow> dict_rel (TOPIC q) (DOCUMENT q) = None))))"
proof -
  let ?ids = "get_file_ids files"
  from assms(1) obtain rows d dr dict_title where rows: "relevance_file = Some rows"
    and d: "read_clef_rel qt rows = Inr d"
    and dr: "ovid_search = Inr dr"
    and loop: "release_loop qt d dr dict_title ?ids lines_of [] = Inr written"
    by (auto simp: make_release_file_def split: sum.splits option.splits)
  from release_loop_Inr[OF loop] obtain fss where
    fss: "map (\<lambda>t. release_topic qt d dr dict_title t (lines_of t)) ?ids = map Inr fss"
    and w: "written = concat fss"
    by auto
  let ?mk = "if qt = ''abs'' then Abs_qrel else Doc_qrel"
  let ?js = "\<lambda>t. map (qrel_line d (review_doi (the (dr t)))) (read_pids (the (lines_of t)))"
  have len: "length fss = length ?ids" using fss by (metis length_map)
  have each: "dr (?ids ! i) \<noteq> None \<and> lines_of (?ids ! i) \<noteq> None
      \<and> fss ! i = [?mk (?ids ! i) (?js (?ids ! i))]"
    if i: "i < length ?ids" for i
  proof -
    from fss i len have "release_topic qt d dr dict_title (?ids ! i) (lines_of (?ids ! i)) = Inr (fss ! i)"
      by (metis nth_map)
    from release_topic_qrel[OF this assms(2)] show ?thesis by auto
  qed
  have "fss = map (\<lambda>t. [?mk t (?js t)]) ?ids"
    by (rule nth_equalityI) (simp_all add: len each)
  with w have written: "written = map (\<lambda>t. ?mk t (?js t)) ?ids"
    by (simp add: concat_map_singleton)
  have flags: "get_rel d doi pid = 0 \<or> get_rel d doi pid = 1" for doi pid
    using read_clef_rel_flags(1)[OF d, of doi pid] by simp
  have abs_flags: "qt = ''abs'' \<Longrightarrow> d doi pid = None \<or> d doi pid = Some 1" for doi pid
    using read_clef_rel_flags(2)[OF d, of doi pid] by simp
  have "\<exists>rv fr js. dr (?ids ! i) = Some rv \<and> lines_of (?ids ! i) = Some fr
           \<and> written ! i = ?mk (?ids ! i) js
           \<and> length js = card (strip ` set fr)
           \<and> (\<forall>q \<in> set js. TOPIC q = review_doi rv \<and> ITERATION q = 0
                 \<and> (RELEVANCY q = 0 \<or> RELEVANCY q = 1)
                 \<and> (RELEVANCY q = 0 \<longleftrightarrow>
                      d (TOPIC q) (DOCUMENT q) = None \<or> d (TOPIC q) (DOCUMENT q) = Some 0)
                 \<and> (qt = ''abs'' \<longrightarrow> (RELEVANCY q = 0 \<longleftrightarrow> d (TOPIC q) (DOCUMENT q) = None)))"
    if i: "i < length written" for i
  proof -
    from i written have i': "i < length ?ids" by simp
    from each[OF i'] obtain rv fr where rv: "dr (?ids ! i) = Some rv"
      and fr: "lines_of (?ids ! i) = Some fr" by auto
    have q: "TOPIC q = review_doi rv \<and> ITERATION q = 0
                 \<and> (RELEVANCY q = 0 \<or> RELEVANCY q = 1)
                 \<and> (RELEVANCY q = 0 \<longleftrightarrow>
                      d (TOPIC q) (DOCUMENT q) = None \<or> d (TOPIC q) (DOCUMENT q) = Some 0)
                 \<and> (qt = ''abs'' \<longrightarrow> (RELEVANCY q = 0 \<longleftrightarrow> d (TOPIC q) (DOCUMENT q) = None))"
      if "q \<in> set (?js (?ids ! i))" for q
    proof -
      from that rv obtain item where q: "q = qrel_line d (review_doi rv) item" by auto
      show ?thesis
        using flags[of "review_doi rv" "strip item"] abs_flags[of "review_doi rv" "strip item"]
        by (auto simp: q qrel_line_def get_rel_def split: option.splits)
    qed
    have wi: "written ! i = ?mk (?ids ! i) (?js (?ids ! i))"
      using i' by (simp add: written)
    have len_js: "length (?js (?ids ! i)) = card (strip ` set fr)"
      by (simp add: read_pids_length fr)
    from rv fr wi len_js q show ?thesis by blast
  qed
  note files_ok = this
  show ?thesis
  proof (intro exI[of _ rows] exI[of _ d] exI[of _ dr] conjI allI impI)
    show "relevance_file = Some rows" by (rule rows)
    show "read_clef_rel qt rows = Inr d" by (rule d)
    show "ovid_search = Inr dr" by (rule dr)
    show "length written = length ?ids" by (simp add: written)
    fix i assume "i < length written"
    then show "\<exists>rv fr js. dr (?ids ! i) = Some rv \<and> lines_of (?ids ! i) = Some fr
           \<and> written ! i = ?mk (?ids ! i) js
           \<and> length js = card (strip ` set fr)
           \<and> (\<forall>q \<in> set js. TOPIC q = review_doi rv \<and> ITERATION q = 0
                 \<and> (RELEVANCY q = 0 \<or> RELEVANCY q = 1)
                 \<and> (RELEVANCY q = 0 \<longleftrightarrow>
                      d (TOPIC q) (DOCUMENT q) = None \<or> d (TOPIC q) (DOCUMENT q) = Some 0)
                 \<and> (qt = ''abs'' \<longrightarrow> (RELEVANCY q = 0 \<longleftrightarrow> d (TOPIC q) (DOCUMENT q) = None)))"
      by (rule files_ok)
  qed
qed

lemma release_abs_example:
  "make_release_file ''abs'' (Some [excluded_row]) (Inr dict_review_2017) title_file_1 [''1''] pid_lines =
     Inr [Abs_qrel ''1''
            [\<lparr>TOPIC = ''CD000001'', ITERATION = 0, DOCUMENT = ''123'', RELEVANCY = 1\<rparr>,
             \<lparr>TOPIC = ''CD000001'', ITERATION = 0, DOCUMENT = ''456'', RELEVANCY = 0\<rparr>]]"
  by code_simp

theorem judgment_files_witness:
  "make_release_file ''abs'' (Some [excluded_row]) (Inr dict_review_2017) title_file_1 [''1''] pid_lines =
     Inr [Abs_qrel ''1''
            [\<lparr>TOPIC = ''CD000001'', ITERATION = 0, DOCUMENT = ''123'', RELEVANCY = 1\<rparr>,
             \<lparr>TOPIC = ''CD000001'', ITERATION = 0, DOCUMENT = ''456'', RELEVANCY = 0\<rparr>]]
   \<and> (\<exists>dict_rel. read_clef_rel ''abs'' [excluded_row] = Inr dict_rel
         \<and> dict_rel ''CD000001'' ''456'' = None \<and> dict_rel ''CD000001'' ''123'' \<noteq> None)"
proof -
  from judgment_files [OF release_abs_example] obtain dict_rel where
    d: "read_clef_rel ''abs'' [excluded_row] = Inr dict_rel"
    and f: "\<forall>i < length [Abs_qrel ''1''
            [\<lparr>TOPIC = ''CD000001'', ITERATION = 0, DOCUMENT = ''123'', RELEVANCY = 1\<rparr>,
             \<lparr>TOPIC = ''CD000001'', ITERATION = 0, DOCUMENT = ''456'', RELEVANCY = (0::int)\<rparr>]].
         \<exists>rv js. [Abs_qrel ''1''
            [\<lparr>TOPIC = ''CD000001'', ITERATION = 0, DOCUMENT = ''123'', RELEVANCY = 1\<rparr>,
             \<lparr>TOPIC = ''CD000001'', ITERATION = 0, DOCUMENT = ''456'', RELEVANCY = (0::int)\<rparr>]] ! i
              = Abs_qrel (get_file_ids [''1''] ! i) js
           \<and> (\<forall>q \<in> set js. RELEVANCY q = 0 \<longleftrightarrow> dict_rel (TOPIC q) (DOCUMENT q) = None)"
    by auto
  from f[rule_format, of 0] have "dict_rel ''CD000001'' ''456'' = None \<and> dict_rel ''CD000001'' ''123'' \<noteq> None"
    by auto
  with d release_abs_example show ?thesis by blast
qed

text \<open>
  The claim as stated fails for the document-level kind: the pair of the excluded row has
  an entry in the loaded table, and its flag is 0.
\<close>

theorem judgment_files_counterexample:
  "make_release_file ''doc'' (Some [excluded_row]) (Inr dict_review_2017) title_file_1 [''1''] pid_lines =
     Inr [Doc_qrel ''1''
            [\<lparr>TOPIC = ''CD000001'', ITERATION = 0, DOCUMENT = ''123'', RELEVANCY = 0\<rparr>,
             \<lparr>TOPIC = ''CD000001'', ITERATION = 0, DOCUMENT = ''456'', RELEVANCY = 0\<rparr>]]
   \<and> read_clef_rel ''doc'' [excluded_row] = Inr (set_rel empty_rel ''CD000001'' ''123'' 0)
   \<and> set_rel empty_rel ''CD000001'' ''123'' 0 ''CD000001'' ''123'' = Some 0"
proof -
  have "make_release_file ''doc'' (Some [excluded_row]) (Inr dict_review_2017) title_file_1 [''1''] pid_lines =
     Inr [Doc_qrel ''1''
            [\<lparr>TOPIC = ''CD000001'', ITERATION = 0, DOCUMENT = ''123'', RELEVANCY = 0\<rparr>,
             \<lparr>TOPIC = ''CD000001'', ITERATION = 0, DOCUMENT = ''456'', RELEVANCY = 0\<rparr>]]"
    by code_simp
  moreover have "str_strip ''CD000001'' = ''CD000001''" "str_strip ''123'' = ''123''"
    by code_simp+
  then have "read_clef_rel ''doc'' [excluded_row] = Inr (set_rel empty_rel ''CD000001'' ''123'' 0)"
    by (simp add: read_clef_rel_def excluded_row_def isdigit_def)
  moreover have "set_rel empty_rel ''CD000001'' ''123'' 0 ''CD000001'' ''123'' = Some 0"
    by (simp add: set_rel_def)
  ultimately show ?thesis by simp
qed

text \<open>When the loop over the topic ids stops with the assertion, and when it must fail.\<close>

lemma release_loop_assertion:
  "release_loop qt d dr dt ids lines_of w = Inl AssertionError \<longleftrightarrow>
     (\<exists>pre t post. ids = pre @ t # post \<and> dr t = None
         \<and> (\<forall>u \<in> set pre. dr u \<noteq> None \<and> lines_of u \<noteq> None \<and> dt u \<noteq> None))"
proof (induction ids arbitrary: w)
  case Nil
  show ?case by simp
next
  case (Cons a ids)
  let ?ok = "\<lambda>u. dr u \<noteq> None \<and> lines_of u \<noteq> None \<and> dt u \<noteq> None"
  have shift: "(\<exists>pre t post. a # ids = pre @ t # post \<and> dr t = None \<and> (\<forall>u \<in> set pre. ?ok u))
      \<longleftrightarrow> dr a = None \<or> (?ok a \<and> (\<exists>pre t post. ids = pre @ t # post \<and> dr t = None
                \<and> (\<forall>u \<in> set pre. ?ok u)))" (is "?L \<longleftrightarrow> ?R")
  proof
    assume ?L
    then obtain pre t post where h: "a # ids = pre @ t # post" "dr t = None"
      "\<forall>u \<in> set pre. ?ok u" by blast
    show ?R
    proof (cases pre)
      case Nil
      with h show ?thesis by simp
    next
      case (Cons b pre')
      with h have "b = a" "ids = pre' @ t # post" "?ok a" "\<forall>u \<in> set pre'. ?ok u" by auto
      with h(2) show ?thesis by blast
    qed
  next
    assume ?R
    then show ?L
    proof
      assume "dr a = None"
      then have "a # ids = [] @ a # ids \<and> dr a = None \<and> (\<forall>u \<in> set []. ?ok u)" by simp
      then show ?L by blast
    next
      assume r: "?ok a \<and> (\<exists>pre t post. ids = pre @ t # post \<and> dr t = None
                \<and> (\<forall>u \<in> set pre. ?ok u))"
      then obtain pre t post where h: "ids = pre @ t # post" "dr t = None"
        "\<forall>u \<in> set pre. ?ok u" by blast
      have "a # ids = (a # pre) @ t # post" using h(1) by simp
      moreover have "\<forall>u \<in> set (a # pre). ?ok u" using h(3) r by simp
      ultimately show ?L using h(2) by blast
    qed
  qed
  have step: "release_loop qt d dr dt (a # ids) lines_of w = Inl AssertionError \<longleftrightarrow>
      dr a = None \<or> (?ok a \<and> (\<exists>pre t post. ids = pre @ t # post \<and> dr t = None
                \<and> (\<forall>u \<in> set pre. ?ok u)))"
  proof (cases "dr a")
    case None
    then show ?thesis by (simp add: release_topic_def)
  next
    case rv: (Some rv)
    show ?thesis
    proof (cases "lines_of a")
      case None
      with rv show ?thesis by (simp add: release_topic_def)
    next
      case fr: (Some fr)
      show ?thesis
      proof (cases "dt a")
        case None
        with rv fr show ?thesis by (simp add: release_topic_def)
      next
        case (Some title)
        with rv fr Cons.IH show ?thesis by (simp add: release_topic_def)
      qed
    qed
  qed
  from step shift show ?case by simp
qed

lemma release_loop_fails:
  "t \<in> set ids \<Longrightarrow> dr t = None \<Longrightarrow> \<exists>err. release_loop qt d dr dt ids lines_of w = Inl err"
proof (induction ids arbitrary: w)
  case Nil
  then show ?case by simp
next
  case (Cons a ids)
  show ?case
  proof (cases "release_topic qt d dr dt a (lines_of a)")
    case (Inl err)
    then show ?thesis by simp
  next
    case (Inr fs)
    then have "dr a \<noteq> None" by (auto simp: release_topic_def split: option.splits)
    with Cons.prems have "t \<in> set ids" by auto
    from Cons.IH[OF this Cons.prems(2)] Inr show ?thesis by simp
  qed
qed

text \<open>
  Claim C8, as the code has it. When the relevance table, the spreadsheet metadata and
  the title file all load, the Release Builder fails with an assertion error if and only
  if some listed topic id has no entry in the loaded metadata while every topic id listed
  before it has an entry, an identifier-list file that can be opened, and a title (an
  earlier topic without one of the last two raises IOError or KeyError first); when every
  listed topic id has an entry the assertion never fires, and when some listed topic id
  has none the run fails. When one of the three loads fails, the run fails with the error
  of the first load that fails, before any topic id is looked at. The listed topic ids
  are the file names of the identifier-list directory that do not start with a dot.
\<close>

theorem release_assertion:
  "(relevance_file = Some rows \<and> read_clef_rel qt rows = Inr dict_rel
      \<and> ovid_search = Inr dr \<and> read_title title_file = Inr dict_title \<longrightarrow>
      (make_release_file qt relevance_file ovid_search title_file files lines_of
           = Inl AssertionError \<longleftrightarrow>
         (\<exists>pre t post. get_file_ids files = pre @ t # post \<and> dr t = None
            \<and> (\<forall>u \<in> set pre. dr u \<noteq> None \<and> lines_of u \<noteq> None \<and> dict_title u \<noteq> None)))
      \<and> ((\<forall>t \<in> set (get_file_ids files). dr t \<noteq> None) \<longrightarrow>
            make_release_file qt relevance_file ovid_search title_file files lines_of
              \<noteq> Inl AssertionError)
      \<and> ((\<exists>t \<in> set (get_file_ids files). dr t = None) \<longrightarrow>
            (\<exists>err. make_release_file qt relevance_file ovid_search title_file files lines_of
                     = Inl err)))
   \<and> (relevance_file = None \<longrightarrow>
        make_release_file qt relevance_file ovid_search title_file files lines_of = Inl IOError)
   \<and> (relevance_file = Some rows \<and> read_clef_rel qt rows = Inl err \<longrightarrow>
        make_release_file qt relevance_file ovid_search title_file files lines_of = Inl err)
   \<and> (relevance_file = Some rows \<and> read_clef_rel qt rows = Inr dict_rel
        \<and> ovid_search = Inl err \<longrightarrow>
        make_release_file qt relevance_file ovid_search title_file files lines_of = Inl err)
   \<and> (relevance_file = Some rows \<and> read_clef_rel qt rows = Inr dict_rel
        \<and> ovid_search = Inr dr \<and> read_title title_file = Inl err \<longrightarrow>
        make_release_file qt relevance_file ovid_search title_file files lines_of = Inl err)"
proof (intro conjI impI)
  assume loads: "relevance_file = Some rows \<and> read_clef_rel qt rows = Inr dict_rel
      \<and> ovid_search = Inr dr \<and> read_title title_file = Inr dict_title"
  then have run: "make_release_file qt relevance_file ovid_search title_file files lines_of =
      release_loop qt dict_rel dr dict_title (get_file_ids files) lines_of []"
    by (simp add: make_release_file_def)
  show iff: "make_release_file qt relevance_file ovid_search title_file files lines_of
           = Inl AssertionError \<longleftrightarrow>
         (\<exists>pre t post. get_file_ids files = pre @ t # post \<and> dr t = None
            \<and> (\<forall>u \<in> set pre. dr u \<noteq> None \<and> lines_of u \<noteq> None \<and> dict_title u \<noteq> None))"
    unfolding run by (rule release_loop_assertion)
  show "make_release_file qt relevance_file ovid_search title_file files lines_of
              \<noteq> Inl AssertionError"
    if "\<forall>t \<in> set (get_file_ids files). dr t \<noteq> None"
    unfolding iff using that by auto
  show "\<exists>err. make_release_file qt relevance_file ovid_search title_file files lines_of = Inl err"
    if "\<exists>t \<in> set (get_file_ids files). dr t = None"
  proof -
    from that obtain t where t: "t \<in> set (get_file_ids files)" "dr t = None" by blast
    from release_loop_fails[of t "get_file_ids files" dr qt dict_rel dict_title lines_of "[]", OF t]
    show ?thesis unfolding run .
  qed
next
  assume "relevance_file = None"
  then show "make_release_file qt relevance_file ovid_search title_file files lines_of = Inl IOError"
    by (simp add: make_release_file_def)
next
  assume "relevance_file = Some rows \<and> read_clef_rel qt rows = Inl err"
  then show "make_release_file qt relevance_file ovid_search title_file files lines_of = Inl err"
    by (simp add: make_release_file_def)
next
  assume "relevance_file = Some rows \<and> read_clef_rel qt rows = Inr dict_rel
        \<and> ovid_search = Inl err"
  then show "make_release_file qt relevance_file ovid_search title_file files lines_of = Inl err"
    by (simp add: make_release_file_def)
next
  assume "relevance_file = Some rows \<and> read_clef_rel qt rows = Inr dict_rel
        \<and> ovid_search = Inr dr \<and> read_title title_file = Inl err"
  then show "make_release_file qt relevance_file ovid_search title_file files lines_of = Inl err"
    by (simp add: make_release_file_def)
qed

text \<open>
  The claim as stated fails: topic \<^verbatim>\<open>2\<close> has no entry in the metadata, but with an
  empty title file topic \<^verbatim>\<open>1\<close>, listed before it, has no title and the run fails with
  KeyError; and with a title file that cannot be opened the run fails with IOError.
\<close>

theorem release_assertion_counterexample:
  "dict_review_2017 ''2'' = None
   \<and> get_file_ids [''1'', ''2''] = [''1'', ''2'']
   \<and> make_release_file ''abs'' (Some [excluded_row]) (Inr dict_review_2017) title_file_empty
        [''1'', ''2''] pid_lines = Inl KeyError
   \<and> make_release_file ''abs'' (Some [excluded_row]) (Inr dict_review_2017) None
        [''1'', ''2''] pid_lines = Inl IOError"
proof -
  have "make_release_file ''abs'' (Some [excluded_row]) (Inr dict_review_2017) title_file_empty
        [''1'', ''2''] pid_lines = Inl KeyError"
    by code_simp
  moreover have "make_release_file ''abs'' (Some [excluded_row]) (Inr dict_review_2017) None
        [''1'', ''2''] pid_lines = Inl IOError"
    by code_simp
  moreover have "get_file_ids [''1'', ''2''] = [''1'', ''2'']" by code_simp
  moreover have "dict_review_2017 ''2'' = None" by (simp add: dict_review_2017_def)
  ultimately show ?thesis by simp
qed

lemma read_title_1: "read_title title_file_1 = Inr dict_title_1"
proof -
  have "split_bars [] (''1 ||| A title '' @ nl) = [''1 '', '' A title '' @ nl]"
    by code_simp
  moreover have "strip ''1 '' = ''1''" "strip ('' A title '' @ nl) = ''A title''"
    by code_simp+
  ultimately show ?thesis
    by (simp add: read_title_def title_file_1_def dict_title_1_def)
qed

theorem release_assertion_witness:
  "read_clef_rel ''abs'' [excluded_row] = Inr (set_rel empty_rel ''CD000001'' ''123'' 1)
   \<and> read_title title_file_1 = Inr dict_title_1
   \<and> get_file_ids [''1'', ''2''] = [''1''] @ ''2'' # []
   \<and> dict_review_2017 ''2'' = None
   \<and> dict_review_2017 ''1'' \<noteq> None \<and> pid_lines ''1'' \<noteq> None \<and> dict_title_1 ''1'' \<noteq> None
   \<and> make_release_file ''abs'' (Some [excluded_row]) (Inr dict_review_2017) title_file_1
        [''1'', ''2''] pid_lines = Inl AssertionError
   \<and> read_title None = Inl IOError
   \<and> make_release_file ''abs'' (Some [excluded_row]) (Inr dict_review_2017) None
        [''1'', ''2''] pid_lines = Inl IOError
   \<and> make_release_file ''abs'' (Some [excluded_row]) (Inl KeyError) title_file_1
        [''1'', ''2''] pid_lines = Inl KeyError
   \<and> read_clef_rel ''abs'' [other_row] = Inl IndexError
   \<and> make_release_file ''abs'' (Some [other_row]) (Inr dict_review_2017) title_file_1
        [''1'', ''2''] pid_lines = Inl IndexError"
proof -
  have ids: "get_file_ids [''1'', ''2''] = [''1''] @ ''2'' # []" by code_simp
  have dr: "dict_review_2017 ''2'' = None" "dict_review_2017 ''1'' \<noteq> None"
    "pid_lines ''1'' \<noteq> None" "dict_title_1 ''1'' \<noteq> None"
    by (simp_all add: dict_review_2017_def dict_title_1_def pid_lines_def)
  have "str_strip ''CD000001'' = ''CD000001''" "str_strip ''123'' = ''123''"
    by code_simp+
  then have rel: "read_clef_rel ''abs'' [excluded_row] = Inr (set_rel empty_rel ''CD000001'' ''123'' 1)"
    by (simp add: read_clef_rel_def excluded_row_def isdigit_def)
  have bad: "read_clef_rel ''abs'' [other_row] = Inl IndexError"
    by (rule read_clef_rel_other_row)
  have no_title: "read_title None = Inl IOError" by (simp add: read_title_def)
  have "\<forall>u \<in> set [''1'']. dict_review_2017 u \<noteq> None \<and> pid_lines u \<noteq> None \<and> dict_title_1 u \<noteq> None"
    using dr by simp
  with ids dr have cond: "\<exists>pre t post. get_file_ids [''1'', ''2''] = pre @ t # post
      \<and> dict_review_2017 t = None
      \<and> (\<forall>u \<in> set pre. dict_review_2017 u \<noteq> None \<and> pid_lines u \<noteq> None \<and> dict_title_1 u \<noteq> None)"
    by blast
  from cond rel read_title_1
    release_assertion [where qt = "''abs''" and relevance_file = "Some [excluded_row]"
      and rows = "[excluded_row]"
      and dict_rel = "set_rel empty_rel ''CD000001'' ''123'' 1"
      and ovid_search = "Inr dict_review_2017" and dr = dict_review_2017
      and title_file = title_file_1 and dict_title = dict_title_1
      and files = "[''1'', ''2'']" and lines_of = pid_lines]
  have a: "make_release_file ''abs'' (Some [excluded_row]) (Inr dict_review_2017) title_file_1
        [''1'', ''2''] pid_lines = Inl AssertionError"
    by blast
  from rel no_title
    release_assertion [where qt = "''abs''" and relevance_file = "Some [excluded_row]"
      and rows = "[excluded_row]"
      and dict_rel = "set_rel empty_rel ''CD000001'' ''123'' 1"
      and ovid_search = "Inr dict_review_2017" and dr = dict_review_2017
      and title_file = None and err = IOError
      and files = "[''1'', ''2'']" and lines_of = pid_lines]
  have b: "make_release_file ''abs'' (Some [excluded_row]) (Inr dict_review_2017) None
        [''1'', ''2''] pid_lines = Inl IOError"
    by blast
  from rel
    release_assertion [where qt = "''abs''" and relevance_file = "Some [excluded_row]"
      and rows = "[excluded_row]"
      and dict_rel = "set_rel empty_rel ''CD000001'' ''123'' 1"
      and ovid_search = "Inl KeyError" and err = KeyError
      and title_file = title_file_1
      and files = "[''1'', ''2'']" and lines_of = pid_lines]
  have c: "make_release_file ''abs'' (Some [excluded_row]) (Inl KeyError) title_file_1
        [''1'', ''2''] pid_lines = Inl KeyError"
    by blast
  from bad
    release_assertion [where qt = "''abs''" and relevance_file = "Some [other_row]"
      and rows = "[other_row]" and err = IndexError
      and ovid_search = "Inr dict_review_2017" and title_file = title_file_1
      and files = "[''1'', ''2'']" and lines_of = pid_lines]
  have e: "make_release_file ''abs'' (Some [other_row]) (Inr dict_review_2017) title_file_1
        [''1'', ''2''] pid_lines = Inl IndexError"
    by blast
  from ids dr rel read_title_1 a no_title b c bad e show ?thesis by simp
qed

section \<open>Properties of the TREC-style Formatter\<close>

text \<open>The Formatter prints nothing, and writes one record for every citation.\<close>

lemma trec_citation_console: "trec_citation r = Inr (d, printed) \<Longrightarrow> printed = []"
  by (auto simp: trec_citation_def split: list.splits sum.splits)

lemma trec_citations_console:
  "trec_citations rs (docs, console) = Inr (docs', console') \<Longrightarrow>
     console' = console \<and> length docs' = length docs + length rs"
proof (induction rs arbitrary: docs console)
  case Nil
  then show ?case by simp
next
  case (Cons r rs)
  from Cons.prems obtain d printed where
    step: "trec_citation r = Inr (d, printed)"
    and rest: "trec_citations rs (docs @ [d], console @ printed) = Inr (docs', console')"
    by (auto split: sum.splits prod.splits)
  from Cons.IH[OF rest] trec_citation_console[OF step] show ?case by simp
qed

lemma trec_format_file_console:
  "trec_format_file root = Inr (docs, console) \<Longrightarrow>
     console = [] \<and> length docs = length (getElementsByTagName root ''PubmedArticle'')"
  using trec_citations_console[of _ "[]" "[]" docs console]
  by (simp add: trec_format_file_def)

lemma abstract_text_absent:
  "getElementsByTagName Article ''AbstractText'' = [] \<Longrightarrow> abstract_text Article = []"
  by (simp add: abstract_text_def)

text \<open>
  Claim C9. For a citation the Formatter emits one record whose text field is the
  newline-joined data of all text nodes of the citation's \<^verbatim>\<open>AbstractText\<close>
  elements, and a citation without such an element is tolerated and gets an empty text
  field. The code does not log the absence, though: for the citation without an abstract
  below, the record has an empty text field and nothing is printed to the console.
\<close>

theorem trec_citation_examples:
  "trec_citation citation_no_abstract
     = Inr (\<lparr>DOCNO = ''123'', TITLE = ''A title'', TEXT = []\<rparr>, [])
   \<and> trec_citation citation_two_parts
     = Inr (\<lparr>DOCNO = ''456'', TITLE = ''Another title'', TEXT = ''First.'' @ nl @ ''Second.''\<rparr>, [])"
proof -
  have "trec_citation citation_no_abstract
     = Inr (\<lparr>DOCNO = ''123'', TITLE = ''A title'', TEXT = []\<rparr>, [])"
    by code_simp
  moreover have "trec_citation citation_two_parts
     = Inr (\<lparr>DOCNO = ''456'', TITLE = ''Another title'', TEXT = ''First.'' @ nl @ ''Second.''\<rparr>, [])"
    by code_simp
  ultimately show ?thesis by simp
qed

end
